theory Spec2Isabelle
  imports Main "HOL-Library.AList"
begin

section \<open>Scope of the model\<close>

text \<open>
  This theory embeds the base class \<^verbatim>\<open>Model\<close> of \<^verbatim>\<open>src/Model.ts\<close>: the key
  converters, \<^verbatim>\<open>fromJson\<close>, \<^verbatim>\<open>applyDefaults\<close>, \<^verbatim>\<open>applyJson\<close>, \<^verbatim>\<open>toJson\<close>,
  \<^verbatim>\<open>clone\<close>, \<^verbatim>\<open>diff\<close>, \<^verbatim>\<open>isEqual\<close>, \<^verbatim>\<open>reset\<close>, \<^verbatim>\<open>merge\<close> and
  \<^verbatim>\<open>getChangesSince\<close>.

  \<^item> JavaScript values are the datatype \<open>val\<close>. Numbers are integers; arrays and plain
    objects are values (every import and export of the source rebuilds them with
    \<^verbatim>\<open>map\<close> and \<^verbatim>\<open>Object.fromEntries\<close>, so they are never shared); model
    instances are references into a heap, because the source does share them.
  \<^item> A plain object or the own enumerable properties of an instance are an association
    list in insertion order. Assigning an existing key keeps its position, a new key is
    appended (\<open>AList.update\<close>). The special position JavaScript gives to integer-like
    keys is not modelled.
  \<^item> Property lookup follows the prototype chain where the source relies on it. The
    tables of \<^verbatim>\<open>@Type\<close>, \<^verbatim>\<open>@Transform\<close> and \<^verbatim>\<open>@Expose\<close> are plain objects, so
    reading them at the name of a member of \<^verbatim>\<open>Object.prototype\<close> finds that member
    (\<open>lookupTable\<close>). An own property of an instance shadows a method of the same
    name, and calling it raises \<^verbatim>\<open>TypeError\<close>; this is modelled for every method
    call that the source makes on an instance after an import may have assigned its
    properties (\<^verbatim>\<open>applyJson\<close>, \<^verbatim>\<open>toJson\<close>, \<^verbatim>\<open>clone\<close>, \<^verbatim>\<open>diff\<close>,
    \<^verbatim>\<open>afterApplyJson\<close>, \<^verbatim>\<open>applyDefaults\<close>) and for \<^verbatim>\<open>this.constructor\<close>. No
    value of \<open>val\<close> is a function, so a shadowing property is never callable.
  \<^item> The metadata that the decorators register with \<^verbatim>\<open>Reflect\<close> is a record per
    class, \<open>klass\<close>: what \<^verbatim>\<open>Reflect.getMetadata(key, this)\<close> returns for an instance
    of the class. The class table maps class names to such records.
  \<^item> A field declared without initializer creates no property (so \<^verbatim>\<open>_originalState\<close>
    is an own property only once \<^verbatim>\<open>fromJson\<close> has assigned it).
  \<^item> \<^verbatim>\<open>fromJson\<close>, \<^verbatim>\<open>toJson\<close> and \<^verbatim>\<open>JSON.stringify\<close> recurse through the heap and
    need not return (a transform can build ever deeper input, a heap can be cyclic), so
    they take fuel and return \<open>Inl OutOfFuel\<close> when it is used up.
  \<^item> \<^verbatim>\<open>JSON.stringify\<close> returns the syntax tree of the text it would print
    (\<open>json\<close>), or \<open>None\<close> for \<^verbatim>\<open>undefined\<close>; two texts are equal exactly when their
    trees are. It raises \<^verbatim>\<open>TypeError\<close> on a cyclic structure.
  \<^item> \<^verbatim>\<open>freeze\<close>, \<^verbatim>\<open>toFormData\<close> and the validation pass-through are not modelled;
    instances are extensible.
\<close>

section \<open>Key conversion\<close>

text \<open>
  Keys are JavaScript strings. The two regular expressions of the source only look at
  the ASCII ranges \<^verbatim>\<open>[a-z]\<close>, \<^verbatim>\<open>[A-Z]\<close> and the underscore, and
  \<^verbatim>\<open>toUpperCase\<close>/\<^verbatim>\<open>toLowerCase\<close> are only applied to a letter matched by one of
  those ranges, so every other character is left alone.
\<close>

definition isLowerAZ :: "char \<Rightarrow> bool" where
  "isLowerAZ c = (97 \<le> (of_char c :: nat) \<and> (of_char c :: nat) \<le> 122)"

definition isUpperAZ :: "char \<Rightarrow> bool" where
  "isUpperAZ c = (65 \<le> (of_char c :: nat) \<and> (of_char c :: nat) \<le> 90)"

definition toUpperCase :: "char \<Rightarrow> char" where
  "toUpperCase c = (if isLowerAZ c then char_of ((of_char c :: nat) - 32) else c)"

definition toLowerCase :: "char \<Rightarrow> char" where
  "toLowerCase c = (if isUpperAZ c then char_of ((of_char c :: nat) + 32) else c)"

text \<open>
  \<^verbatim>\<open>key.replace(/_([a-z])/g, (_, c) => c.toUpperCase())\<close>: a global replace scans from
  the left and resumes after each match.
\<close>

fun toCamelCaseKey :: "string \<Rightarrow> string" where
  "toCamelCaseKey (c # d # r) =
     (if c = CHR ''_'' \<and> isLowerAZ d then toUpperCase d # toCamelCaseKey r
      else c # toCamelCaseKey (d # r))"
| "toCamelCaseKey r = r"

text \<open>\<^verbatim>\<open>key.replace(/[A-Z]/g, c => `_${c.toLowerCase()}`)\<close>\<close>

fun toSnakeCaseKey :: "string \<Rightarrow> string" where
  "toSnakeCaseKey [] = []"
| "toSnakeCaseKey (c # r) =
     (if isUpperAZ c then CHR ''_'' # toLowerCase c # toSnakeCaseKey r
      else c # toSnakeCaseKey r)"

section \<open>Values, instances and class metadata\<close>

datatype val =
    Undef
  | Null
  | Bool bool
  | Num int
  | Str string
  | Arr "val list"
  | Obj "(string \<times> val) list"
  | Ref nat
  | Boxed val

text \<open>
  \<open>Boxed v\<close> is the wrapper object \<^verbatim>\<open>Object(v)\<close> of a boolean, number or string
  \<open>v\<close>; the source can only produce one through the inherited
  \<^verbatim>\<open>Object.prototype.constructor\<close> (see \<open>prototypeCall\<close>).
\<close>

type_synonym proplist = "(string \<times> val) list"

text \<open>A model instance: its class and its own enumerable properties.\<close>

record obj =
  cls :: string
  props :: proplist

type_synonym heap = "obj list"

text \<open>
  A property initializer of a class body: a literal value (\<^verbatim>\<open>title = ''\<close>) or a fresh
  instance of a model class (\<^verbatim>\<open>profile = new Profile()\<close>).
\<close>

datatype init = Lit val | New string

text \<open>
  The metadata of one class. \<open>ancestors\<close> are its superclasses (for
  \<^verbatim>\<open>instanceof\<close>), \<open>initializers\<close> what its constructor assigns, in order. The other
  fields are the six decorator tables: \<^verbatim>\<open>@Default\<close> (the value its function returns),
  \<^verbatim>\<open>@Type\<close>, \<^verbatim>\<open>@Transform\<close>, \<^verbatim>\<open>@Readonly\<close>, \<^verbatim>\<open>@Exclude\<close>, \<^verbatim>\<open>@Expose\<close> (the
  registered group list, \<open>[]\<close> when the decorator names none), and the two optional
  hooks, which act on the own properties of the instance. A table holds the own
  properties of the metadata object, that is the registered names only, and none
  registers the name \<^verbatim>\<open>__proto__\<close> (assigning it would replace the prototype of the
  table). \<open>beforeApplyJson\<close> is what \<^verbatim>\<open>instance.beforeApplyJson?.()\<close> does on a
  freshly constructed instance of the class.
\<close>

record klass =
  ancestors :: "string list"
  initializers :: "(string \<times> init) list"
  defaults :: proplist
  types :: "(string \<times> string) list"
  transforms :: "(string \<times> (val \<Rightarrow> val)) list"
  readOnly :: "string list"
  excluded :: "string list"
  exposed :: "(string \<times> string list) list"
  beforeApplyJson :: "(proplist \<Rightarrow> proplist) option"
  afterApplyJson :: "(proplist \<Rightarrow> proplist) option"

type_synonym classes = "string \<Rightarrow> klass"

text \<open>
  The state threaded through an import: the heap, and a record of every call
  \<^verbatim>\<open>transforms[key](val)\<close> made so far (class of the receiver, key, argument). The
  record is only written, never read, by the operations.
\<close>

record world =
  heap :: heap
  invoked :: "(string \<times> string \<times> val) list"

text \<open>
  \<open>Unmodelled\<close> marks the one place where the source goes on with a host object that
  \<open>val\<close> cannot express (see \<open>prototypeCall\<close>); no statement below is about such a
  run.
\<close>

datatype error = OutOfFuel | TypeError | Unmodelled

text \<open>The argument of \<^verbatim>\<open>toJson\<close>: \<^verbatim>\<open>{ group?: string; onlyChanged?: boolean }\<close>.\<close>

record options =
  group :: "string option"
  onlyChanged :: bool

datatype json =
    JNull
  | JBool bool
  | JNum int
  | JStr string
  | JArr "json list"
  | JObj "(string \<times> json) list"

section \<open>JavaScript primitives\<close>

fun truthy :: "val \<Rightarrow> bool" where
  "truthy Undef = False"
| "truthy Null = False"
| "truthy (Bool b) = b"
| "truthy (Num n) = (n \<noteq> 0)"
| "truthy (Str s) = (s \<noteq> [])"
| "truthy (Arr vs) = True"
| "truthy (Obj kvs) = True"
| "truthy (Ref r) = True"
| "truthy (Boxed v) = True"

text \<open>\<^verbatim>\<open>v === null || v === undefined\<close>\<close>

fun nullish :: "val \<Rightarrow> bool" where
  "nullish Undef = True"
| "nullish Null = True"
| "nullish v = False"

text \<open>\<^verbatim>\<open>typeof v === 'object' && v !== null\<close>\<close>

fun isObject :: "val \<Rightarrow> bool" where
  "isObject (Arr vs) = True"
| "isObject (Obj kvs) = True"
| "isObject (Ref r) = True"
| "isObject (Boxed v) = True"
| "isObject v = False"

text \<open>\<^verbatim>\<open>Object(v)\<close>: a fresh empty object for null and undefined, the wrapper of a
  primitive, the object itself otherwise.\<close>

fun objectOf :: "val \<Rightarrow> val" where
  "objectOf Undef = Obj []"
| "objectOf Null = Obj []"
| "objectOf (Bool b) = Boxed (Bool b)"
| "objectOf (Num i) = Boxed (Num i)"
| "objectOf (Str s) = Boxed (Str s)"
| "objectOf v = v"

text \<open>Reading a property that is not there gives \<^verbatim>\<open>undefined\<close>.\<close>

definition objGet :: "proplist \<Rightarrow> string \<Rightarrow> val" where
  "objGet ps k = (case map_of ps k of None \<Rightarrow> Undef | Some v \<Rightarrow> v)"

definition ownKey :: "(string \<times> 'a) list \<Rightarrow> string \<Rightarrow> bool" where
  "ownKey ps k = (k \<in> set (map fst ps))"

text \<open>
  The members of \<^verbatim>\<open>Object.prototype\<close>, which every plain object inherits, and the
  three outcomes of reading a metadata table at a key: a registered entry, an inherited
  member (truthy, and not what the decorator would have stored), or
  \<^verbatim>\<open>undefined\<close>.
\<close>

definition objectPrototypeMembers :: "string list" where
  "objectPrototypeMembers =
     [''constructor'', ''__defineGetter__'', ''__defineSetter__'', ''hasOwnProperty'',
      ''__lookupGetter__'', ''__lookupSetter__'', ''isPrototypeOf'', ''propertyIsEnumerable'',
      ''toString'', ''valueOf'', ''__proto__'', ''toLocaleString'']"

datatype 'a slot = Own 'a | Inherited | Absent

definition lookupTable :: "(string \<times> 'a) list \<Rightarrow> string \<Rightarrow> 'a slot" where
  "lookupTable tab key =
     (case map_of tab key of
        Some x \<Rightarrow> Own x
      | None \<Rightarrow> if key \<in> set objectPrototypeMembers then Inherited else Absent)"

text \<open>\<^verbatim>\<open>Object.fromEntries\<close>: a later entry for a key overwrites the value in place.\<close>

definition fromEntries :: "(string \<times> 'a) list \<Rightarrow> (string \<times> 'a) list" where
  "fromEntries es = foldl (\<lambda>acc (k, v). AList.update k v acc) [] es"

text \<open>
  Heap access. Every reference the operations create is allocated; a reference outside
  the heap reads as an instance without class and properties, and writing to it does
  nothing.
\<close>

definition clsOf :: "heap \<Rightarrow> nat \<Rightarrow> string" where
  "clsOf h r = (if r < length h then cls (h ! r) else [])"

definition propsOf :: "heap \<Rightarrow> nat \<Rightarrow> proplist" where
  "propsOf h r = (if r < length h then props (h ! r) else [])"

definition getProp :: "heap \<Rightarrow> nat \<Rightarrow> string \<Rightarrow> val" where
  "getProp h r k = objGet (propsOf h r) k"

definition setProp :: "nat \<Rightarrow> string \<Rightarrow> val \<Rightarrow> heap \<Rightarrow> heap" where
  "setProp r k v h =
     (if r < length h then h[r := (h ! r)\<lparr>props := AList.update k v (props (h ! r))\<rparr>] else h)"

definition setPropW :: "nat \<Rightarrow> string \<Rightarrow> val \<Rightarrow> world \<Rightarrow> world" where
  "setPropW r k v w = w\<lparr>heap := setProp r k v (heap w)\<rparr>"

text \<open>The instance has an own property of this name, which hides the method of the
  class (or \<^verbatim>\<open>constructor\<close>) of that name.\<close>

definition shadowed :: "heap \<Rightarrow> nat \<Rightarrow> string \<Rightarrow> bool" where
  "shadowed h r name = ownKey (propsOf h r) name"

text \<open>The elements of an array or a string under their index keys.\<close>

fun showNat :: "nat \<Rightarrow> string" where
  "showNat n =
     (if n < 10 then [char_of (48 + n)] else showNat (n div 10) @ [char_of (48 + n mod 10)])"

definition indexed :: "'a list \<Rightarrow> (string \<times> 'a) list" where
  "indexed xs = zip (map showNat [0 ..< length xs]) xs"

text \<open>
  \<^verbatim>\<open>other[key]\<close> for a value \<^verbatim>\<open>other\<close> that is neither \<^verbatim>\<open>null\<close> nor
  \<^verbatim>\<open>undefined\<close> (on those the read raises \<^verbatim>\<open>TypeError\<close>, which the callers model), up
  to what \<^verbatim>\<open>JSON.stringify\<close> makes of the result, the only use the source has for it.
  An own property gives its value, an array or a string its elements and its length. An
  inherited method is a function, which prints like \<^verbatim>\<open>undefined\<close>; the inherited
  accessor \<^verbatim>\<open>__proto__\<close> gives the prototype, of which \<open>prototypeImage\<close> is the
  printed form.
\<close>

fun prototypeImage :: "val \<Rightarrow> val" where
  "prototypeImage (Arr vs) = Arr []"
| "prototypeImage (Str s) = Str []"
| "prototypeImage (Num i) = Num 0"
| "prototypeImage (Bool b) = Bool False"
| "prototypeImage (Boxed v) = prototypeImage v"
| "prototypeImage v = Obj []"

fun ownMember :: "heap \<Rightarrow> val \<Rightarrow> string \<Rightarrow> val option" where
  "ownMember h (Ref s) k = map_of (propsOf h s) k"
| "ownMember h (Obj kvs) k = map_of kvs k"
| "ownMember h (Arr vs) k =
     (if k = ''length'' then Some (Num (int (length vs))) else map_of (indexed vs) k)"
| "ownMember h (Str s) k =
     (if k = ''length'' then Some (Num (int (length s)))
      else map_of (indexed (map (\<lambda>c. Str [c]) s)) k)"
| "ownMember h (Boxed v) k = (case v of Str s \<Rightarrow> ownMember h (Str s) k | _ \<Rightarrow> None)"
| "ownMember h v k = None"

definition memberOf :: "heap \<Rightarrow> val \<Rightarrow> string \<Rightarrow> val" where
  "memberOf h v k =
     (case ownMember h v k of
        Some x \<Rightarrow> x
      | None \<Rightarrow> if k = ''__proto__'' \<and> \<not> nullish v then prototypeImage v else Undef)"

text \<open>\<^verbatim>\<open>v instanceof ClassType\<close>\<close>

definition instanceOf :: "classes \<Rightarrow> heap \<Rightarrow> val \<Rightarrow> string \<Rightarrow> bool" where
  "instanceOf ct h v K =
     (case v of Ref r \<Rightarrow> clsOf h r = K \<or> K \<in> set (ancestors (ct (clsOf h r))) | _ \<Rightarrow> False)"

text \<open>
  \<^verbatim>\<open>Model.toCamelCase\<close> and \<^verbatim>\<open>Model.toSnakeCase\<close> (lines 76 to 102): an instance is
  returned as it is, an array is mapped, a plain object is rebuilt with converted keys,
  anything else is returned as it is. The test \<^verbatim>\<open>obj.constructor === Object\<close> (lines
  79 and 93) fails for a wrapper object and for a plain object with an own property
  \<^verbatim>\<open>constructor\<close>, which hides the inherited one and is not the function
  \<^verbatim>\<open>Object\<close>; such an object is returned as it is.
\<close>

fun toCamelCase :: "val \<Rightarrow> val" where
  "toCamelCase (Ref r) = Ref r"
| "toCamelCase (Arr vs) = Arr (map toCamelCase vs)"
| "toCamelCase (Obj kvs) =
     (if ownKey kvs ''constructor'' then Obj kvs
      else Obj (fromEntries (map (\<lambda>(k, v). (toCamelCaseKey k, toCamelCase v)) kvs)))"
| "toCamelCase v = v"

fun toSnakeCase :: "val \<Rightarrow> val" where
  "toSnakeCase (Ref r) = Ref r"
| "toSnakeCase (Arr vs) = Arr (map toSnakeCase vs)"
| "toSnakeCase (Obj kvs) =
     (if ownKey kvs ''constructor'' then Obj kvs
      else Obj (fromEntries (map (\<lambda>(k, v). (toSnakeCaseKey k, toSnakeCase v)) kvs)))"
| "toSnakeCase v = v"

text \<open>
  \<^verbatim>\<open>Object.entries\<close>: the entries of a plain object, the indexed elements of an array,
  the indexed characters of a string or of its wrapper, the own properties of an
  instance, nothing for a number or a boolean.
\<close>

definition objectEntries :: "heap \<Rightarrow> val \<Rightarrow> proplist" where
  "objectEntries h v =
     (case v of
        Obj kvs \<Rightarrow> kvs
      | Arr vs \<Rightarrow> indexed vs
      | Str s \<Rightarrow> indexed (map (\<lambda>c. Str [c]) s)
      | Ref r \<Rightarrow> propsOf h r
      | Boxed (Str s) \<Rightarrow> indexed (map (\<lambda>c. Str [c]) s)
      | _ \<Rightarrow> [])"

text \<open>Loops that stop at the first exception.\<close>

fun mapE :: "('a \<Rightarrow> error + 'b) \<Rightarrow> 'a list \<Rightarrow> error + 'b list" where
  "mapE f [] = Inr []"
| "mapE f (x # xs) =
     (case f x of Inl e \<Rightarrow> Inl e
      | Inr y \<Rightarrow> (case mapE f xs of Inl e \<Rightarrow> Inl e | Inr ys \<Rightarrow> Inr (y # ys)))"

fun foldE :: "('a \<Rightarrow> 's \<Rightarrow> error + 's) \<Rightarrow> 'a list \<Rightarrow> 's \<Rightarrow> error + 's" where
  "foldE f [] s = Inr s"
| "foldE f (x # xs) s = (case f x s of Inl e \<Rightarrow> Inl e | Inr s' \<Rightarrow> foldE f xs s')"

text \<open>
  \<^verbatim>\<open>JSON.stringify\<close>. A member whose value prints as \<^verbatim>\<open>undefined\<close> is left out of an
  object and printed as \<^verbatim>\<open>null\<close> in an array. An instance prints as its own
  properties, \<^verbatim>\<open>_originalState\<close> included; \<open>stack\<close> holds the instances being printed.
  A wrapper object prints as the primitive it wraps.
\<close>

definition jsonMembers :: "(val \<Rightarrow> error + json option) \<Rightarrow> proplist \<Rightarrow> error + json option" where
  "jsonMembers f kvs =
     (case mapE (\<lambda>(k, v). case f v of Inl e \<Rightarrow> Inl e | Inr j \<Rightarrow> Inr (k, j)) kvs of
        Inl e \<Rightarrow> Inl e
      | Inr kjs \<Rightarrow>
          Inr (Some (JObj (concat (map (\<lambda>(k, j). case j of None \<Rightarrow> [] | Some x \<Rightarrow> [(k, x)]) kjs)))))"

primrec stringify :: "heap \<Rightarrow> nat \<Rightarrow> nat list \<Rightarrow> val \<Rightarrow> error + json option" where
  "stringify h 0 stack v = Inl OutOfFuel"
| "stringify h (Suc n) stack v =
     (case v of
        Undef \<Rightarrow> Inr None
      | Null \<Rightarrow> Inr (Some JNull)
      | Bool b \<Rightarrow> Inr (Some (JBool b))
      | Num i \<Rightarrow> Inr (Some (JNum i))
      | Str s \<Rightarrow> Inr (Some (JStr s))
      | Arr vs \<Rightarrow>
          (case mapE (stringify h n stack) vs of
             Inl e \<Rightarrow> Inl e
           | Inr js \<Rightarrow> Inr (Some (JArr (map (\<lambda>j. case j of None \<Rightarrow> JNull | Some x \<Rightarrow> x) js))))
      | Obj kvs \<Rightarrow> jsonMembers (stringify h n stack) kvs
      | Ref r \<Rightarrow>
          if r \<in> set stack then Inl TypeError
          else jsonMembers (stringify h n (r # stack)) (propsOf h r)
      | Boxed b \<Rightarrow> stringify h n stack b)"

text \<open>\<^verbatim>\<open>JSON.stringify(a) === JSON.stringify(b)\<close>, the left operand first.\<close>

definition sameJson :: "heap \<Rightarrow> nat \<Rightarrow> val \<Rightarrow> val \<Rightarrow> error + bool" where
  "sameJson h n a b =
     (case stringify h n [] a of Inl e \<Rightarrow> Inl e
      | Inr x \<Rightarrow> (case stringify h n [] b of Inl e \<Rightarrow> Inl e | Inr y \<Rightarrow> Inr (x = y)))"

section \<open>Construction and import\<close>

text \<open>
  \<^verbatim>\<open>new this()\<close>: allocate the instance, then run the property initializers in order.
  \<open>new\<close> is the constructor used for a nested \<^verbatim>\<open>new K()\<close>.
\<close>

fun initFields ::
  "(string \<Rightarrow> heap \<Rightarrow> error + nat \<times> heap) \<Rightarrow> nat \<Rightarrow> (string \<times> init) list \<Rightarrow> heap \<Rightarrow> error + heap"
where
  "initFields new r [] h = Inr h"
| "initFields new r ((k, Lit v) # fs) h = initFields new r fs (setProp r k v h)"
| "initFields new r ((k, New K) # fs) h =
     (case new K h of Inl e \<Rightarrow> Inl e
      | Inr (r', h') \<Rightarrow> initFields new r fs (setProp r k (Ref r') h'))"

primrec construct :: "classes \<Rightarrow> nat \<Rightarrow> string \<Rightarrow> heap \<Rightarrow> error + nat \<times> heap" where
  "construct ct 0 C h = Inl OutOfFuel"
| "construct ct (Suc n) C h =
     (case initFields (construct ct n) (length h) (initializers (ct C))
             (h @ [\<lparr>cls = C, props = []\<rparr>]) of
        Inl e \<Rightarrow> Inl e
      | Inr h' \<Rightarrow> Inr (length h, h'))"

text \<open>\<^verbatim>\<open>applyDefaults\<close> (lines 116 to 121)\<close>

definition applyDefaults :: "classes \<Rightarrow> nat \<Rightarrow> heap \<Rightarrow> heap" where
  "applyDefaults ct r h =
     foldl (\<lambda>h' (key, v). setProp r key v h') h (defaults (ct (clsOf h r)))"

text \<open>\<^verbatim>\<open>instance.beforeApplyJson?.()\<close> and \<^verbatim>\<open>instance.afterApplyJson?.()\<close>\<close>

definition runHook :: "(proplist \<Rightarrow> proplist) option \<Rightarrow> nat \<Rightarrow> heap \<Rightarrow> heap" where
  "runHook hook r h =
     (case hook of
        None \<Rightarrow> h
      | Some f \<Rightarrow> if r < length h then h[r := (h ! r)\<lparr>props := f (props (h ! r))\<rparr>] else h)"

text \<open>
  An own property that is neither \<^verbatim>\<open>null\<close> nor \<^verbatim>\<open>undefined\<close> hides the method of
  its name, and the call raises \<^verbatim>\<open>TypeError\<close>. Before \<^verbatim>\<open>beforeApplyJson\<close> no input
  has been read, so what the optional call finds is a matter of the class alone, and
  the record of the class has it. The import can assign a property
  \<^verbatim>\<open>afterApplyJson\<close>: then the optional call does nothing when the property is
  \<^verbatim>\<open>null\<close> or \<^verbatim>\<open>undefined\<close>, and raises otherwise.
\<close>

definition notCallable :: "heap \<Rightarrow> nat \<Rightarrow> string \<Rightarrow> bool" where
  "notCallable h r name = (shadowed h r name \<and> \<not> nullish (getProp h r name))"

definition callAfterApplyJson :: "classes \<Rightarrow> string \<Rightarrow> nat \<Rightarrow> heap \<Rightarrow> error + heap" where
  "callAfterApplyJson ct C r h =
     (if notCallable h r ''afterApplyJson'' then Inl TypeError
      else if shadowed h r ''afterApplyJson'' then Inr h
      else Inr (runHook (afterApplyJson (ct C)) r h))"

text \<open>
  \<^verbatim>\<open>applyJson\<close> calls \<^verbatim>\<open>ClassType.fromJson\<close>, which calls \<^verbatim>\<open>applyJson\<close> and
  \<^verbatim>\<open>clone\<close>. The functions below take the static \<^verbatim>\<open>fromJson\<close> as the parameter
  \<open>fj\<close> (class, input, \<^verbatim>\<open>skipOriginalState\<close>); \<open>fromJson\<close> then closes the recursion
  on the fuel.
\<close>

type_synonym importer = "string \<Rightarrow> val \<Rightarrow> bool \<Rightarrow> world \<Rightarrow> error + nat \<times> world"

text \<open>\<^verbatim>\<open>v instanceof ClassType ? v : ClassType.fromJson(v)\<close> (lines 139 and 141)\<close>

definition coerce :: "classes \<Rightarrow> importer \<Rightarrow> string \<Rightarrow> val \<Rightarrow> world \<Rightarrow> error + val \<times> world" where
  "coerce ct fj K v w =
     (if instanceOf ct (heap w) v K then Inr (v, w)
      else case fj K v False w of Inl e \<Rightarrow> Inl e | Inr (r, w') \<Rightarrow> Inr (Ref r, w'))"

fun coerceAll ::
  "classes \<Rightarrow> importer \<Rightarrow> string \<Rightarrow> val list \<Rightarrow> world \<Rightarrow> error + val list \<times> world"
where
  "coerceAll ct fj K [] w = Inr ([], w)"
| "coerceAll ct fj K (v # vs) w =
     (case coerce ct fj K v w of Inl e \<Rightarrow> Inl e
      | Inr (v', w') \<Rightarrow>
          (case coerceAll ct fj K vs w' of Inl e \<Rightarrow> Inl e
           | Inr (vs', w'') \<Rightarrow> Inr (v' # vs', w'')))"

text \<open>
  \<^verbatim>\<open>transforms[key](val)\<close> when \<^verbatim>\<open>transforms[key]\<close> is a member of
  \<^verbatim>\<open>Object.prototype\<close>, called with the table as \<^verbatim>\<open>this\<close>:
  \<^item> \<^verbatim>\<open>constructor\<close> is \<^verbatim>\<open>Object\<close>, and \<^verbatim>\<open>Object(val)\<close> is \<open>objectOf val\<close>;
  \<^item> \<^verbatim>\<open>toString\<close> gives \<^verbatim>\<open>"[object Object]"\<close>;
  \<^item> \<^verbatim>\<open>toLocaleString\<close> calls \<^verbatim>\<open>this.toString()\<close>, which is the transform registered
    for a property \<^verbatim>\<open>toString\<close> if there is one, called without argument, and the
    inherited \<^verbatim>\<open>toString\<close> otherwise;
  \<^item> \<^verbatim>\<open>isPrototypeOf\<close> gives \<^verbatim>\<open>false\<close>, the table being the prototype of no value;
  \<^item> \<^verbatim>\<open>__defineGetter__\<close> and \<^verbatim>\<open>__defineSetter__\<close> raise \<^verbatim>\<open>TypeError\<close> for want of
    a callable second argument, and \<^verbatim>\<open>__proto__\<close> is an object, not a function;
  \<^item> \<^verbatim>\<open>valueOf\<close>, \<^verbatim>\<open>hasOwnProperty\<close>, \<^verbatim>\<open>propertyIsEnumerable\<close>,
    \<^verbatim>\<open>__lookupGetter__\<close> and \<^verbatim>\<open>__lookupSetter__\<close> give the table itself, a boolean that
    depends on the string conversion of \<^verbatim>\<open>val\<close>, or an accessor function. These results
    are not modelled (\<open>Unmodelled\<close>). Line 136 then finds \<^verbatim>\<open>types[key]\<close> truthy; unless a
    class is registered there, whatever the result is, the \<^verbatim>\<open>instanceof\<close> test or the
    call of the missing \<^verbatim>\<open>fromJson\<close> raises \<^verbatim>\<open>TypeError\<close> (see \<open>applyEntry\<close>).
\<close>

definition prototypeCall ::
  "classes \<Rightarrow> string \<Rightarrow> string \<Rightarrow> val \<Rightarrow> world \<Rightarrow> error + val \<times> world"
where
  "prototypeCall ct C key v w =
     (if key = ''constructor'' then Inr (objectOf v, w)
      else if key = ''toString'' then Inr (Str ''[object Object]'', w)
      else if key = ''toLocaleString'' then
        (case lookupTable (transforms (ct C)) ''toString'' of
           Own f \<Rightarrow> Inr (f Undef, w\<lparr>invoked := invoked w @ [(C, ''toString'', Undef)]\<rparr>)
         | _ \<Rightarrow> Inr (Str ''[object Object]'', w))
      else if key = ''isPrototypeOf'' then Inr (Bool False, w)
      else if key \<in> {''__defineGetter__'', ''__defineSetter__'', ''__proto__''} then Inl TypeError
      else Inl Unmodelled)"

text \<open>
  \<^verbatim>\<open>transforms[key] ? transforms[key](val) : val\<close> (line 134). Every call of a registered
  transform is recorded with the class, the property it is registered for and its
  argument.
\<close>

definition applyTransform ::
  "classes \<Rightarrow> string \<Rightarrow> string \<Rightarrow> val \<Rightarrow> world \<Rightarrow> error + val \<times> world"
where
  "applyTransform ct C key v w =
     (case lookupTable (transforms (ct C)) key of
        Own f \<Rightarrow> Inr (f v, w\<lparr>invoked := invoked w @ [(C, key, v)]\<rparr>)
      | Inherited \<Rightarrow> prototypeCall ct C key v w
      | Absent \<Rightarrow> Inr (v, w))"

text \<open>
  \<^verbatim>\<open>v instanceof ClassType ? v : ClassType.fromJson(v)\<close> when \<^verbatim>\<open>ClassType\<close> is a member
  of \<^verbatim>\<open>Object.prototype\<close>. None of them has a \<^verbatim>\<open>fromJson\<close>, so the expression has a
  value only if the test succeeds, which it does for \<^verbatim>\<open>Object\<close> and an object; for
  the other members the test is false on a primitive and raises on an object.
\<close>

definition inheritedAccepts :: "string \<Rightarrow> val \<Rightarrow> bool" where
  "inheritedAccepts key v = (key = ''constructor'' \<and> isObject v)"

text \<open>
  One iteration of the loop of \<^verbatim>\<open>applyJson\<close> (lines 131 to 146), for the receiver
  \<open>r\<close> of class \<open>C\<close>, whose metadata the source reads once before the loop.
\<close>

definition applyEntry ::
  "classes \<Rightarrow> importer \<Rightarrow> string \<Rightarrow> nat \<Rightarrow> string \<times> val \<Rightarrow> world \<Rightarrow> error + world"
where
  "applyEntry ct fj C r e w =
     (case e of (key, v) \<Rightarrow>
        if key \<in> set (readOnly (ct C)) then Inr w
        else
          (case applyTransform ct C key v w of
             Inl x \<Rightarrow>
               (case lookupTable (types (ct C)) key of
                  Inherited \<Rightarrow> Inl TypeError
                | _ \<Rightarrow> Inl x)
           | Inr (value, w1) \<Rightarrow>
               (case lookupTable (types (ct C)) key of
                  Own K \<Rightarrow>
                    (case value of
                       Arr vs \<Rightarrow>
                         (case coerceAll ct fj K vs w1 of Inl x \<Rightarrow> Inl x
                          | Inr (vs', w2) \<Rightarrow> Inr (setPropW r key (Arr vs') w2))
                     | _ \<Rightarrow>
                         (case coerce ct fj K value w1 of Inl x \<Rightarrow> Inl x
                          | Inr (v', w2) \<Rightarrow> Inr (setPropW r key v' w2)))
                | Inherited \<Rightarrow>
                    (case value of
                       Arr vs \<Rightarrow>
                         if list_all (inheritedAccepts key) vs
                         then Inr (setPropW r key (Arr vs) w1) else Inl TypeError
                     | _ \<Rightarrow>
                         if inheritedAccepts key value
                         then Inr (setPropW r key value w1) else Inl TypeError)
                | Absent \<Rightarrow> Inr (setPropW r key value w1))))"

text \<open>
  \<^verbatim>\<open>x.applyJson(json)\<close> (lines 123 to 147). An own property \<^verbatim>\<open>applyJson\<close> of the
  receiver hides the method, and an own property \<^verbatim>\<open>constructor\<close> hides the class in
  \<^verbatim>\<open>this.constructor.toCamelCase\<close> (line 126); either way the call raises.
\<close>

definition applyJsonWith :: "classes \<Rightarrow> importer \<Rightarrow> nat \<Rightarrow> val \<Rightarrow> world \<Rightarrow> error + world" where
  "applyJsonWith ct fj r json w =
     (if shadowed (heap w) r ''applyJson'' then Inl TypeError
      else if \<not> truthy json then Inr w
      else if shadowed (heap w) r ''constructor'' then Inl TypeError
      else foldE (applyEntry ct fj (clsOf (heap w) r) r)
             (objectEntries (heap w) (toCamelCase json)) w)"

section \<open>Export\<close>

definition startsWithUnderscore :: "string \<Rightarrow> bool" where
  "startsWithUnderscore key = (case key of [] \<Rightarrow> False | c # _ \<Rightarrow> c = CHR ''_'')"

text \<open>
  \<^verbatim>\<open>options.group && exposed[key] && !exposed[key].includes(options.group)\<close> (line 157):
  the empty string is falsy, a registered group list is truthy even when empty, and so
  is an inherited member of \<^verbatim>\<open>Object.prototype\<close>, which has no \<^verbatim>\<open>includes\<close>.
\<close>

definition groupHidden :: "klass \<Rightarrow> options \<Rightarrow> string \<Rightarrow> error + bool" where
  "groupHidden k opts key =
     (case group opts of
        None \<Rightarrow> Inr False
      | Some g \<Rightarrow>
          if g = [] then Inr False
          else
            (case lookupTable (exposed k) key of
               Own gs \<Rightarrow> Inr (g \<notin> set gs)
             | Inherited \<Rightarrow> Inl TypeError
             | Absent \<Rightarrow> Inr False))"

text \<open>The condition of line 158.\<close>

definition unchanged :: "heap \<Rightarrow> nat \<Rightarrow> nat \<Rightarrow> options \<Rightarrow> string \<Rightarrow> error + bool" where
  "unchanged h n r opts key =
     (if onlyChanged opts \<and> truthy (getProp h r ''_originalState'')
      then sameJson h n (getProp h r key) (memberOf h (getProp h r ''_originalState'') key)
      else Inr False)"

text \<open>
  One iteration of the loop of \<^verbatim>\<open>toJson\<close> (lines 154 to 164); \<open>rec\<close> is
  \<^verbatim>\<open>value.toJson(options)\<close> for a field that holds an instance. The key of the
  assignment of line 162 is computed before its right-hand side, and
  \<^verbatim>\<open>this.constructor.toSnakeCaseKey\<close> raises when an own property \<^verbatim>\<open>constructor\<close>
  hides the class.
\<close>

definition toJsonKey ::
  "classes \<Rightarrow> (nat \<Rightarrow> error + val) \<Rightarrow> heap \<Rightarrow> nat \<Rightarrow> nat \<Rightarrow> options \<Rightarrow> string \<Rightarrow> proplist
     \<Rightarrow> error + proplist"
where
  "toJsonKey ct rec h n r opts key plain =
     (if startsWithUnderscore key then Inr plain
      else if key \<in> set (excluded (ct (clsOf h r))) then Inr plain
      else
        (case groupHidden (ct (clsOf h r)) opts key of
           Inl e \<Rightarrow> Inl e
         | Inr True \<Rightarrow> Inr plain
         | Inr False \<Rightarrow>
             (case unchanged h n r opts key of
                Inl e \<Rightarrow> Inl e
              | Inr True \<Rightarrow> Inr plain
              | Inr False \<Rightarrow>
                  if shadowed h r ''constructor'' then Inl TypeError
                  else
                    (case getProp h r key of
                       Ref r' \<Rightarrow>
                         (case rec r' of Inl e \<Rightarrow> Inl e
                          | Inr j \<Rightarrow> Inr (AList.update (toSnakeCaseKey key) j plain))
                     | value \<Rightarrow>
                         Inr (AList.update (toSnakeCaseKey key) (toSnakeCase value) plain)))))"

text \<open>\<^verbatim>\<open>x.toJson(options)\<close>; an own property \<^verbatim>\<open>toJson\<close> of \<^verbatim>\<open>x\<close> hides the method.\<close>

primrec toJson :: "classes \<Rightarrow> heap \<Rightarrow> nat \<Rightarrow> nat \<Rightarrow> options \<Rightarrow> error + val" where
  "toJson ct h 0 r opts = Inl OutOfFuel"
| "toJson ct h (Suc n) r opts =
     (if shadowed h r ''toJson'' then Inl TypeError
      else
        (case foldE (toJsonKey ct (\<lambda>r'. toJson ct h n r' opts) h n r opts)
                (map fst (propsOf h r)) [] of
           Inl e \<Rightarrow> Inl e
         | Inr plain \<Rightarrow> Inr (Obj plain)))"

text \<open>\<^verbatim>\<open>toJson()\<close> with the default argument \<^verbatim>\<open>{}\<close>.\<close>

definition noOptions :: options where
  "noOptions = \<lparr>group = None, onlyChanged = False\<rparr>"

section \<open>The static constructor and the change tracker\<close>

text \<open>
  \<^verbatim>\<open>x.clone()\<close> (lines 169 to 171): \<^verbatim>\<open>this.constructor.fromJson(this.toJson(), true)\<close>.
  When an own property \<^verbatim>\<open>constructor\<close> hides the class, reading \<^verbatim>\<open>fromJson\<close> from
  \<^verbatim>\<open>null\<close> or \<^verbatim>\<open>undefined\<close> raises at once; from any other value the read gives
  nothing callable, and the call raises once its argument has been evaluated.
\<close>

definition cloneWith :: "classes \<Rightarrow> importer \<Rightarrow> nat \<Rightarrow> nat \<Rightarrow> world \<Rightarrow> error + nat \<times> world" where
  "cloneWith ct fj n r w =
     (if shadowed (heap w) r ''clone'' then Inl TypeError
      else if shadowed (heap w) r ''constructor'' \<and> nullish (getProp (heap w) r ''constructor'')
      then Inl TypeError
      else
        (case toJson ct (heap w) n r noOptions of
           Inl e \<Rightarrow> Inl e
         | Inr j \<Rightarrow>
             if shadowed (heap w) r ''constructor'' then Inl TypeError
             else fj (clsOf (heap w) r) j True w))"

text \<open>
  \<^verbatim>\<open>fromJson\<close> (lines 104 to 114). \<open>applyDefaults\<close> above is the body of the method;
  its lookup on the fresh instance is here.
\<close>

primrec fromJson :: "classes \<Rightarrow> nat \<Rightarrow> importer" where
  "fromJson ct 0 C json skipOriginalState w = Inl OutOfFuel"
| "fromJson ct (Suc n) C json skipOriginalState w =
     (case construct ct n C (heap w) of
        Inl e \<Rightarrow> Inl e
      | Inr (r, h1) \<Rightarrow>
          if shadowed h1 r ''applyDefaults'' then Inl TypeError
          else if notCallable (applyDefaults ct r h1) r ''beforeApplyJson'' then Inl TypeError
          else
            (case applyJsonWith ct (fromJson ct n) r json
                    (w\<lparr>heap := runHook (beforeApplyJson (ct C)) r (applyDefaults ct r h1)\<rparr>) of
               Inl e \<Rightarrow> Inl e
             | Inr w2 \<Rightarrow>
                 (case callAfterApplyJson ct C r (heap w2) of
                    Inl e \<Rightarrow> Inl e
                  | Inr h3 \<Rightarrow>
                      if skipOriginalState then Inr (r, w2\<lparr>heap := h3\<rparr>)
                      else
                        (case cloneWith ct (fromJson ct n) n r (w2\<lparr>heap := h3\<rparr>) of
                           Inl e \<Rightarrow> Inl e
                         | Inr (s, w3) \<Rightarrow> Inr (r, setPropW r ''_originalState'' (Ref s) w3)))))"

definition applyJson :: "classes \<Rightarrow> nat \<Rightarrow> nat \<Rightarrow> val \<Rightarrow> world \<Rightarrow> error + world" where
  "applyJson ct n r json w = applyJsonWith ct (fromJson ct n) r json w"

definition clone :: "classes \<Rightarrow> nat \<Rightarrow> nat \<Rightarrow> world \<Rightarrow> error + nat \<times> world" where
  "clone ct n r w = cloneWith ct (fromJson ct n) n r w"

text \<open>
  \<^verbatim>\<open>x.diff(other)\<close> (lines 173 to 181): one iteration, then the loop over
  \<^verbatim>\<open>Object.keys(this)\<close>. The left operand of line 176 is printed first; reading
  \<^verbatim>\<open>other[key]\<close> then raises when \<^verbatim>\<open>other\<close> is \<^verbatim>\<open>null\<close> or \<^verbatim>\<open>undefined\<close>. An own
  property \<^verbatim>\<open>diff\<close> of \<^verbatim>\<open>x\<close> hides the method.
\<close>

definition diffKey :: "heap \<Rightarrow> nat \<Rightarrow> nat \<Rightarrow> val \<Rightarrow> string \<Rightarrow> proplist \<Rightarrow> error + proplist" where
  "diffKey h n r other key diffs =
     (if nullish other
      then (case stringify h n [] (getProp h r key) of Inl e \<Rightarrow> Inl e | Inr x \<Rightarrow> Inl TypeError)
      else
        (case sameJson h n (getProp h r key) (memberOf h other key) of
           Inl e \<Rightarrow> Inl e
         | Inr same \<Rightarrow>
             Inr (if \<not> same then AList.update key (getProp h r key) diffs else diffs)))"

definition diff :: "heap \<Rightarrow> nat \<Rightarrow> nat \<Rightarrow> val \<Rightarrow> error + proplist" where
  "diff h n r other =
     (if shadowed h r ''diff'' then Inl TypeError
      else foldE (diffKey h n r other) (map fst (propsOf h r)) [])"

text \<open>
  \<open>isEqual\<close>, \<open>reset\<close>, \<open>merge\<close> and \<open>getChangesSince\<close> are the bodies of methods that
  only a client calls.

  \<^verbatim>\<open>isEqual\<close> (lines 183 to 185)\<close>

definition isEqual :: "classes \<Rightarrow> heap \<Rightarrow> nat \<Rightarrow> nat \<Rightarrow> nat \<Rightarrow> error + bool" where
  "isEqual ct h n r other =
     (case toJson ct h n r noOptions of
        Inl e \<Rightarrow> Inl e
      | Inr a \<Rightarrow>
          (case stringify h n [] a of
             Inl e \<Rightarrow> Inl e
           | Inr x \<Rightarrow>
               (case toJson ct h n other noOptions of
                  Inl e \<Rightarrow> Inl e
                | Inr b \<Rightarrow>
                    (case stringify h n [] b of Inl e \<Rightarrow> Inl e | Inr y \<Rightarrow> Inr (x = y)))))"

text \<open>
  \<^verbatim>\<open>reset\<close> (lines 187 to 191); calling \<^verbatim>\<open>toJson\<close> on a truthy value that is not an
  instance raises \<^verbatim>\<open>TypeError\<close>.
\<close>

definition reset :: "classes \<Rightarrow> nat \<Rightarrow> nat \<Rightarrow> world \<Rightarrow> error + world" where
  "reset ct n r w =
     (if truthy (getProp (heap w) r ''_originalState'')
      then
        (case getProp (heap w) r ''_originalState'' of
           Ref s \<Rightarrow>
             (case toJson ct (heap w) n s noOptions of
                Inl e \<Rightarrow> Inl e
              | Inr j \<Rightarrow> applyJson ct n r j w)
         | _ \<Rightarrow> Inl TypeError)
      else Inr w)"

definition merge :: "classes \<Rightarrow> nat \<Rightarrow> nat \<Rightarrow> val \<Rightarrow> world \<Rightarrow> error + world" where
  "merge ct n r other w = applyJson ct n r other w"

text \<open>\<^verbatim>\<open>getChangesSince\<close> (lines 214 to 217)\<close>

definition getChangesSince :: "heap \<Rightarrow> nat \<Rightarrow> nat \<Rightarrow> error + proplist" where
  "getChangesSince h n r =
     (if \<not> truthy (getProp h r ''_originalState'') then Inr []
      else diff h n r (getProp h r ''_originalState''))"

section \<open>Notions used in the statements\<close>

text \<open>A key with no underscore directly followed by a lower-case letter.\<close>

fun camelShaped :: "string \<Rightarrow> bool" where
  "camelShaped (c # d # r) = (\<not> (c = CHR ''_'' \<and> isLowerAZ d) \<and> camelShaped (d # r))"
| "camelShaped r = True"

text \<open>
  \<open>grows h h'\<close>: every instance of \<open>h\<close> is in \<open>h'\<close> as it was. \<open>growsExcept r h h'\<close>
  allows the properties of \<open>r\<close> to differ. \<open>allocates fj\<close>: a constructor returns a
  reference it has just allocated and touches no instance that existed before.
\<close>

definition grows :: "heap \<Rightarrow> heap \<Rightarrow> bool" where
  "grows h h' = (length h \<le> length h' \<and> (\<forall>i < length h. h' ! i = h ! i))"

definition growsExcept :: "nat \<Rightarrow> heap \<Rightarrow> heap \<Rightarrow> bool" where
  "growsExcept r h h' =
     (length h \<le> length h' \<and> (\<forall>i < length h. i \<noteq> r \<longrightarrow> h' ! i = h ! i)
       \<and> (r < length h \<longrightarrow> cls (h' ! r) = cls (h ! r)))"

definition allocates :: "importer \<Rightarrow> bool" where
  "allocates fj =
     (\<forall>C j s w r w'. fj C j s w = Inr (r, w') \<longrightarrow>
        r = length (heap w) \<and> r < length (heap w') \<and> grows (heap w) (heap w'))"

text \<open>No recorded transform call is for a key that is read-only in the receiver's class.\<close>

definition logOk :: "classes \<Rightarrow> world \<Rightarrow> bool" where
  "logOk ct w = (\<forall>e \<in> set (invoked w). fst (snd e) \<notin> set (readOnly (ct (fst e))))"



text \<open>The four \<^verbatim>\<open>continue\<close> conditions of the loop of \<^verbatim>\<open>toJson\<close>.\<close>

definition skipped :: "classes \<Rightarrow> heap \<Rightarrow> nat \<Rightarrow> nat \<Rightarrow> options \<Rightarrow> string \<Rightarrow> bool" where
  "skipped ct h n r opts key =
     (startsWithUnderscore key \<or> key \<in> set (excluded (ct (clsOf h r)))
       \<or> groupHidden (ct (clsOf h r)) opts key = Inr True \<or> unchanged h n r opts key = Inr True)"

text \<open>A value in which a live model instance occurs.\<close>

fun hasModel :: "val \<Rightarrow> bool" where
  "hasModel (Ref r) = True"
| "hasModel (Arr vs) = list_ex hasModel vs"
| "hasModel (Obj kvs) = list_ex hasModel (map snd kvs)"
| "hasModel v = False"

text \<open>
  The fields that \<^verbatim>\<open>toJson()\<close> without options exports: not underscore-prefixed and
  not excluded. \<open>exportOf\<close> is the object that \<^verbatim>\<open>toJson()\<close> builds when none of
  them holds a model instance.
\<close>

definition exportedKey :: "klass \<Rightarrow> string \<Rightarrow> bool" where
  "exportedKey K key = (\<not> startsWithUnderscore key \<and> key \<notin> set (excluded K))"

definition exportedKeys :: "classes \<Rightarrow> heap \<Rightarrow> nat \<Rightarrow> string list" where
  "exportedKeys ct h r = filter (exportedKey (ct (clsOf h r))) (map fst (propsOf h r))"

definition exportOf :: "classes \<Rightarrow> heap \<Rightarrow> nat \<Rightarrow> proplist" where
  "exportOf ct h r =
     fromEntries (map (\<lambda>k. (toSnakeCaseKey k, toSnakeCase (getProp h r k))) (exportedKeys ct h r))"

text \<open>\<^verbatim>\<open>value instanceof Model\<close>\<close>

fun isModel :: "val \<Rightarrow> bool" where
  "isModel (Ref r) = True"
| "isModel v = False"

text \<open>
  A flat instance: it is allocated, its class registers no transform, no read-only
  field, no nested type and no hook, its own keys are distinct, and each exported field
  has a name that the key round trip gives back and holds no model instance itself.
\<close>

definition flat :: "classes \<Rightarrow> heap \<Rightarrow> nat \<Rightarrow> bool" where
  "flat ct h r =
     (r < length h
      \<and> transforms (ct (clsOf h r)) = [] \<and> readOnly (ct (clsOf h r)) = []
      \<and> types (ct (clsOf h r)) = []
      \<and> beforeApplyJson (ct (clsOf h r)) = None \<and> afterApplyJson (ct (clsOf h r)) = None
      \<and> distinct (map fst (propsOf h r))
      \<and> list_all (\<lambda>k. toCamelCaseKey (toSnakeCaseKey k) = k \<and> \<not> isModel (getProp h r k))
           (exportedKeys ct h r))"

section \<open>Example classes\<close>

text \<open>
  \<^verbatim>\<open>P\<close> is a post with a title, \<^verbatim>\<open>L\<close> holds an array of posts
  (\<^verbatim>\<open>@Type(P) ps: P[] = []\<close>), \<^verbatim>\<open>R\<close> has a read-only \<^verbatim>\<open>id\<close> and a doubling
  transform on both of its fields, \<^verbatim>\<open>G\<close> exposes \<^verbatim>\<open>a\<close> to the group
  \<^verbatim>\<open>admin\<close> only.
\<close>

definition emptyClass :: klass where
  "emptyClass = \<lparr>ancestors = [], initializers = [], defaults = [], types = [], transforms = [],
     readOnly = [], excluded = [], exposed = [], beforeApplyJson = None, afterApplyJson = None\<rparr>"

definition emptyWorld :: world where
  "emptyWorld = \<lparr>heap = [], invoked = []\<rparr>"

definition double :: "val \<Rightarrow> val" where
  "double v = (case v of Num i \<Rightarrow> Num (2 * i) | _ \<Rightarrow> v)"

definition demo :: classes where
  "demo C =
     (if C = ''P'' then emptyClass\<lparr>initializers := [(''t'', Lit (Str ''''))]\<rparr>
      else if C = ''L'' then
        emptyClass\<lparr>initializers := [(''ps'', Lit (Arr []))], types := [(''ps'', ''P'')]\<rparr>
      else if C = ''R'' then
        emptyClass\<lparr>initializers := [(''id'', Lit (Num 7)), (''n'', Lit (Num 0))],
          readOnly := [''id''], transforms := [(''id'', double), (''n'', double)]\<rparr>
      else if C = ''G'' then
        emptyClass\<lparr>initializers := [(''a'', Lit (Bool True)), (''b'', Lit (Num 1))],
          exposed := [(''a'', [''admin''])]\<rparr>
      else emptyClass)"



definition postList :: val where
  "postList = Obj [(''ps'', Arr [Obj [(''t'', Str ''a'')]])]"

definition roWorld :: world where
  "roWorld = \<lparr>heap = [\<lparr>cls = ''R'', props = [(''id'', Num 7), (''n'', Num 2)]\<rparr>], invoked = []\<rparr>"



definition sHeap :: heap where
  "sHeap = [\<lparr>cls = ''P'', props = [(''t'', Str ''a''), (''_originalState'', Ref 1)]\<rparr>,
            \<lparr>cls = ''P'', props = [(''t'', Str ''a'')]\<rparr>]"

section \<open>Lemmas\<close>

subsection \<open>Keys\<close>

lemma upper_lower: "isUpperAZ c \<Longrightarrow> toUpperCase (toLowerCase c) = c"
  by (auto simp: isUpperAZ_def toUpperCase_def toLowerCase_def isLowerAZ_def)

lemma lower_of_upper: "isUpperAZ c \<Longrightarrow> isLowerAZ (toLowerCase c)"
  by (auto simp: isUpperAZ_def toLowerCase_def isLowerAZ_def)

lemma upper_of_lower: "isLowerAZ c \<Longrightarrow> isUpperAZ (toUpperCase c)"
  by (auto simp: isUpperAZ_def toUpperCase_def isLowerAZ_def)

lemma lower_upper: "isLowerAZ c \<Longrightarrow> toLowerCase (toUpperCase c) = c"
  by (auto simp: isUpperAZ_def toUpperCase_def toLowerCase_def isLowerAZ_def)

lemma not_both: "isLowerAZ c \<Longrightarrow> \<not> isUpperAZ c"
  by (auto simp: isUpperAZ_def isLowerAZ_def)

lemma us_not: "\<not> isLowerAZ CHR ''_''" "\<not> isUpperAZ CHR ''_''"
  by (auto simp: isUpperAZ_def isLowerAZ_def)

lemma camel_hd: "toCamelCaseKey s = x # t \<Longrightarrow> isLowerAZ x \<Longrightarrow> \<exists>t'. s = x # t'"
  by (induction s rule: toCamelCaseKey.induct) (auto split: if_splits dest: upper_of_lower not_both)

lemma camelShaped_toCamelCaseKey: "camelShaped (toCamelCaseKey s)"
proof (induction s rule: toCamelCaseKey.induct)
  case (1 c d r)
  show ?case
  proof (cases "c = CHR ''_'' \<and> isLowerAZ d")
    case True
    with 1 have ih: "camelShaped (toCamelCaseKey r)" by simp
    have up: "isUpperAZ (toUpperCase d)" using True upper_of_lower by simp
    then have "toUpperCase d \<noteq> CHR ''_''" using us_not by auto
    with ih True show ?thesis by (cases "toCamelCaseKey r") auto
  next
    case False
    with 1 have ih: "camelShaped (toCamelCaseKey (d # r))" by simp
    show ?thesis
    proof (cases "toCamelCaseKey (d # r)")
      case Nil
      with False show ?thesis by auto
    next
      case (Cons x t)
      have "\<not> (c = CHR ''_'' \<and> isLowerAZ x)"
      proof
        assume a: "c = CHR ''_'' \<and> isLowerAZ x"
        with Cons camel_hd have "x = d" by fastforce
        with a False show False by simp
      qed
      with False ih Cons show ?thesis by auto
    qed
  qed
qed simp_all

lemma snake_hd: "toSnakeCaseKey s = x # t \<Longrightarrow> isLowerAZ x \<Longrightarrow> \<exists>t'. s = x # t'"
  by (cases s) (auto split: if_splits simp: us_not)

lemma camel_cons: "\<not> (c = CHR ''_'' \<and> (\<exists>x t. s = x # t \<and> isLowerAZ x)) \<Longrightarrow> toCamelCaseKey (c # s) = c # toCamelCaseKey s"
  by (cases s) auto

lemma camel_snake: "camelShaped s \<Longrightarrow> toCamelCaseKey (toSnakeCaseKey s) = s"
proof (induction s)
  case Nil
  then show ?case by simp
next
  case (Cons c r)
  then have ih: "toCamelCaseKey (toSnakeCaseKey r) = r" by (cases r) auto
  show ?case
  proof (cases "isUpperAZ c")
    case True
    then show ?thesis using ih by (simp add: lower_of_upper upper_lower)
  next
    case False
    have "\<not> (c = CHR ''_'' \<and> (\<exists>x t. toSnakeCaseKey r = x # t \<and> isLowerAZ x))"
    proof
      assume a: "c = CHR ''_'' \<and> (\<exists>x t. toSnakeCaseKey r = x # t \<and> isLowerAZ x)"
      then obtain x t where xt: "toSnakeCaseKey r = x # t" "isLowerAZ x" by blast
      then obtain t' where "r = x # t'" using snake_hd by blast
      with Cons.prems a xt show False by simp
    qed
    then show ?thesis using False ih by (simp add: camel_cons)
  qed
qed

subsection \<open>Imports only allocate\<close>

lemma grows_refl: "grows h h"
  by (simp add: grows_def)

lemma grows_trans: "grows a b \<Longrightarrow> grows b c \<Longrightarrow> grows a c"
  by (auto simp: grows_def)

lemma growsExcept_refl: "growsExcept r h h"
  by (simp add: growsExcept_def)

lemma growsExcept_trans: "growsExcept r a b \<Longrightarrow> growsExcept r b c \<Longrightarrow> growsExcept r a c"
  by (auto simp: growsExcept_def)

lemma grows_growsExcept: "grows h h' \<Longrightarrow> growsExcept r h h'"
  by (auto simp: grows_def growsExcept_def)

lemma growsExcept_fresh: "growsExcept r h h' \<Longrightarrow> length h \<le> r \<Longrightarrow> grows h h'"
  by (auto simp: grows_def growsExcept_def)

lemma growsExcept_setProp: "growsExcept r h (setProp r k v h)"
  by (auto simp: growsExcept_def setProp_def)

lemma growsExcept_runHook: "growsExcept r h (runHook hook r h)"
  by (auto simp: growsExcept_def runHook_def split: option.splits)

lemma length_setProp [simp]: "length (setProp r k v h) = length h"
  by (simp add: setProp_def)

lemma length_runHook [simp]: "length (runHook hook r h) = length h"
  by (simp add: runHook_def split: option.splits)

lemma heap_setPropW [simp]: "heap (setPropW r k v w) = setProp r k v (heap w)"
  by (simp add: setPropW_def)

lemma invoked_setPropW [simp]: "invoked (setPropW r k v w) = invoked w"
  by (simp add: setPropW_def)

lemma grows_append: "grows h (h @ xs)"
  by (simp add: grows_def nth_append)

lemma initFields_frame:
  assumes new: "\<And>K h r' h'. new K h = Inr (r', h') \<Longrightarrow> grows h h'"
  shows "initFields new r fs h = Inr h' \<Longrightarrow> growsExcept r h h'"
proof (induction fs arbitrary: h)
  case Nil
  then show ?case by (simp add: growsExcept_refl)
next
  case (Cons f fs)
  obtain k i where f: "f = (k, i)" by (cases f)
  show ?case
  proof (cases i)
    case (Lit v)
    with Cons f have "growsExcept r (setProp r k v h) h'" by simp
    then show ?thesis using growsExcept_setProp growsExcept_trans by blast
  next
    case (New K)
    with Cons.prems f obtain r' h1 where n: "new K h = Inr (r', h1)"
      and rest: "initFields new r fs (setProp r k (Ref r') h1) = Inr h'"
      by (auto split: sum.splits)
    from new [OF n] have "growsExcept r h h1" by (rule grows_growsExcept)
    moreover have "growsExcept r h1 (setProp r k (Ref r') h1)" by (rule growsExcept_setProp)
    moreover have "growsExcept r (setProp r k (Ref r') h1) h'" using Cons.IH rest by simp
    ultimately show ?thesis using growsExcept_trans by blast
  qed
qed

lemma construct_frame:
  "construct ct n C h = Inr (r, h') \<Longrightarrow> r = length h \<and> r < length h' \<and> grows h h'"
proof (induction n arbitrary: C h r h')
  case 0
  then show ?case by simp
next
  case (Suc n)
  from Suc.prems have r: "r = length h"
    and i: "initFields (construct ct n) (length h) (initializers (ct C)) (h @ [\<lparr>cls = C, props = []\<rparr>]) = Inr h'"
    by (auto split: sum.splits)
  have "growsExcept (length h) (h @ [\<lparr>cls = C, props = []\<rparr>]) h'"
    using initFields_frame [OF _ i] Suc.IH by blast
  then have g: "growsExcept (length h) h h'" and l: "length h < length h'"
    by (auto simp: growsExcept_def nth_append)
  from g have "grows h h'" by (rule growsExcept_fresh) simp
  with r l show ?case by simp
qed

lemma applyDefaults_frame: "growsExcept r h (applyDefaults ct r h)"
proof -
  have "growsExcept r h (foldl (\<lambda>h' (key, v). setProp r key v h') h ds)" for ds
  proof (induction ds arbitrary: h)
    case Nil
    then show ?case by (simp add: growsExcept_refl)
  next
    case (Cons d ds)
    obtain k v where "d = (k, v)" by (cases d)
    then show ?case using Cons [of "setProp r k v h"] growsExcept_setProp growsExcept_trans
      by (metis (no_types, lifting) case_prod_conv foldl_Cons)
  qed
  then show ?thesis by (simp add: applyDefaults_def)
qed

lemma coerce_frame:
  "allocates fj \<Longrightarrow> coerce ct fj K v w = Inr (v', w') \<Longrightarrow> grows (heap w) (heap w')"
  by (auto simp: coerce_def allocates_def grows_refl split: if_splits sum.splits)

lemma coerceAll_frame:
  "allocates fj \<Longrightarrow> coerceAll ct fj K vs w = Inr (vs', w') \<Longrightarrow> grows (heap w) (heap w')"
proof (induction vs arbitrary: w vs' w')
  case Nil
  then show ?case by (simp add: grows_refl)
next
  case (Cons v vs)
  from Cons.prems(2) obtain v1 w1 vs1 where c: "coerce ct fj K v w = Inr (v1, w1)"
    and r: "coerceAll ct fj K vs w1 = Inr (vs1, w')"
    by (auto split: sum.splits)
  show ?case using coerce_frame [OF Cons.prems(1) c] Cons.IH [OF Cons.prems(1) r] grows_trans by blast
qed

lemma heap_prototypeCall: "prototypeCall ct C key v w = Inr (x, w1) \<Longrightarrow> heap w1 = heap w"
  by (auto simp: prototypeCall_def split: if_splits slot.splits)

lemma heap_applyTransform: "applyTransform ct C key v w = Inr (x, w1) \<Longrightarrow> heap w1 = heap w"
  by (auto simp: applyTransform_def split: slot.splits dest: heap_prototypeCall)

text \<open>A successful iteration of the loop of applyJson on a key that is not read-only:
  the transform step returns, and the type step assigns.\<close>

lemma applyEntry_steps:
  assumes "applyEntry ct fj C r (key, v) w = Inr w'" "key \<notin> set (readOnly (ct C))"
  obtains x w1 where "applyTransform ct C key v w = Inr (x, w1)"
    and "case lookupTable (types (ct C)) key of
           Own K \<Rightarrow>
             (case x of
                Arr vs \<Rightarrow> \<exists>vs' w2. coerceAll ct fj K vs w1 = Inr (vs', w2) \<and> w' = setPropW r key (Arr vs') w2
              | _ \<Rightarrow> \<exists>v' w2. coerce ct fj K x w1 = Inr (v', w2) \<and> w' = setPropW r key v' w2)
         | _ \<Rightarrow> w' = setPropW r key x w1"
proof -
  from assms obtain x w1 where t: "applyTransform ct C key v w = Inr (x, w1)"
    by (auto simp: applyEntry_def split: sum.splits slot.splits)
  show ?thesis
  proof (cases "lookupTable (types (ct C)) key")
    case (Own K)
    show ?thesis
    proof (cases "\<exists>vs. x = Arr vs")
      case True
      then obtain vs where "x = Arr vs" by blast
      with assms t Own that [OF t] show ?thesis
        by (auto simp: applyEntry_def split: sum.splits)
    next
      case False
      with assms t Own that [OF t] show ?thesis
        by (cases x) (auto simp: applyEntry_def split: sum.splits)
    qed
  next
    case Inherited
    with assms t have "w' = setPropW r key x w1"
      by (cases x) (auto simp: applyEntry_def split: if_splits)
    with Inherited that [OF t] show ?thesis by simp
  next
    case Absent
    with assms t have "w' = setPropW r key x w1" by (simp add: applyEntry_def)
    with Absent that [OF t] show ?thesis by simp
  qed
qed

lemma applyEntry_cases:
  assumes "allocates fj" "applyEntry ct fj C r (key, v) w = Inr w'"
  shows "(key \<in> set (readOnly (ct C)) \<and> w' = w) \<or>
         (key \<notin> set (readOnly (ct C)) \<and>
            (\<exists>y w2. grows (heap w) (heap w2) \<and> invoked w2 = invoked w' \<and> w' = setPropW r key y w2))"
proof (cases "key \<in> set (readOnly (ct C))")
  case True
  with assms show ?thesis by (simp add: applyEntry_def)
next
  case False
  from applyEntry_steps [OF assms(2) False] obtain x w1 where
    t: "applyTransform ct C key v w = Inr (x, w1)"
    and s: "case lookupTable (types (ct C)) key of
           Own K \<Rightarrow>
             (case x of
                Arr vs \<Rightarrow> \<exists>vs' w2. coerceAll ct fj K vs w1 = Inr (vs', w2) \<and> w' = setPropW r key (Arr vs') w2
              | _ \<Rightarrow> \<exists>v' w2. coerce ct fj K x w1 = Inr (v', w2) \<and> w' = setPropW r key v' w2)
         | _ \<Rightarrow> w' = setPropW r key x w1"
    by blast
  from t have h1: "heap w1 = heap w" by (rule heap_applyTransform)
  have "\<exists>y w2. grows (heap w1) (heap w2) \<and> w' = setPropW r key y w2"
  proof (cases "lookupTable (types (ct C)) key")
    case (Own K)
    show ?thesis
    proof (cases "\<exists>vs. x = Arr vs")
      case True
      then obtain vs where "x = Arr vs" by blast
      with s Own obtain vs' w2 where "coerceAll ct fj K vs w1 = Inr (vs', w2)"
        "w' = setPropW r key (Arr vs') w2" by auto
      then show ?thesis using coerceAll_frame [OF assms(1)] by blast
    next
      case notArr: False
      with s Own obtain v' w2 where
        "coerce ct fj K x w1 = Inr (v', w2)" "w' = setPropW r key v' w2"
        by (cases x) auto
      then show ?thesis using coerce_frame [OF assms(1)] by blast
    qed
  next
    case Inherited
    with s show ?thesis using grows_refl by auto
  next
    case Absent
    with s show ?thesis using grows_refl by auto
  qed
  then obtain y w2 where "grows (heap w1) (heap w2)" "w' = setPropW r key y w2" by blast
  with h1 False show ?thesis by (auto simp: setPropW_def)
qed

lemma applyEntry_frame:
  assumes "allocates fj" "applyEntry ct fj C r e w = Inr w'"
  shows "growsExcept r (heap w) (heap w')"
proof -
  obtain key v where e: "e = (key, v)" by (cases e)
  from applyEntry_cases [OF assms(1) assms(2) [unfolded e]]
  show ?thesis
  proof
    assume "key \<in> set (readOnly (ct C)) \<and> w' = w"
    then show ?thesis by (simp add: growsExcept_refl)
  next
    assume "key \<notin> set (readOnly (ct C)) \<and>
      (\<exists>y w2. grows (heap w) (heap w2) \<and> invoked w2 = invoked w' \<and> w' = setPropW r key y w2)"
    then obtain y w2 where g: "grows (heap w) (heap w2)" and w': "w' = setPropW r key y w2" by blast
    have "growsExcept r (heap w2) (heap w')" using w' growsExcept_setProp by (simp add: setPropW_def)
    with g show ?thesis using grows_growsExcept growsExcept_trans by metis
  qed
qed

lemma foldE_applyEntry_frame:
  "allocates fj \<Longrightarrow> foldE (applyEntry ct fj C r) es w = Inr w' \<Longrightarrow> growsExcept r (heap w) (heap w')"
proof (induction es arbitrary: w)
  case Nil
  then show ?case by (simp add: growsExcept_refl)
next
  case (Cons e es)
  from Cons.prems(2) obtain w1 where s: "applyEntry ct fj C r e w = Inr w1"
    and r: "foldE (applyEntry ct fj C r) es w1 = Inr w'"
    by (auto split: sum.splits)
  show ?case using applyEntry_frame [OF Cons.prems(1) s] Cons.IH [OF Cons.prems(1) r] growsExcept_trans by blast
qed

lemma applyJsonWith_frame:
  "allocates fj \<Longrightarrow> applyJsonWith ct fj r json w = Inr w' \<Longrightarrow> growsExcept r (heap w) (heap w')"
  by (auto simp: applyJsonWith_def growsExcept_refl dest: foldE_applyEntry_frame split: if_splits)

lemma cloneWith_frame:
  "allocates fj \<Longrightarrow> cloneWith ct fj n r w = Inr (s, w') \<Longrightarrow>
     s = length (heap w) \<and> s < length (heap w') \<and> grows (heap w) (heap w')"
  by (auto simp: cloneWith_def allocates_def split: sum.splits if_splits)

lemma callAfterApplyJson_cases:
  "callAfterApplyJson ct C r h = Inr h3 \<Longrightarrow>
     (shadowed h r ''afterApplyJson'' \<and> h3 = h) \<or>
     (\<not> shadowed h r ''afterApplyJson'' \<and> h3 = runHook (afterApplyJson (ct C)) r h)"
  by (auto simp: callAfterApplyJson_def split: if_splits)

lemma callAfterApplyJson_frame: "callAfterApplyJson ct C r h = Inr h3 \<Longrightarrow> growsExcept r h h3"
  using callAfterApplyJson_cases growsExcept_refl growsExcept_runHook by metis

text \<open>The steps of a successful fromJson.\<close>

lemma fromJson_steps:
  assumes "fromJson ct (Suc n) C j s w = Inr (r, w')"
  obtains h1 w2 h3 where "construct ct n C (heap w) = Inr (r, h1)"
    and "\<not> shadowed h1 r ''applyDefaults''"
    and "\<not> notCallable (applyDefaults ct r h1) r ''beforeApplyJson''"
    and "applyJsonWith ct (fromJson ct n) r j
           (w\<lparr>heap := runHook (beforeApplyJson (ct C)) r (applyDefaults ct r h1)\<rparr>) = Inr w2"
    and "callAfterApplyJson ct C r (heap w2) = Inr h3"
    and "s \<Longrightarrow> w' = w2\<lparr>heap := h3\<rparr>"
    and "\<not> s \<Longrightarrow> \<exists>t w4. cloneWith ct (fromJson ct n) n r (w2\<lparr>heap := h3\<rparr>) = Inr (t, w4)
           \<and> w' = setPropW r ''_originalState'' (Ref t) w4"
  using assms by (auto split: sum.splits if_splits)

lemma fromJson_allocates: "allocates (fromJson ct n)"
proof (induction n)
  case 0
  then show ?case by (simp add: allocates_def)
next
  case (Suc n)
  show ?case unfolding allocates_def
  proof (intro allI impI)
    fix C j s w r w'
    assume a: "fromJson ct (Suc n) C j s w = Inr (r, w')"
    from fromJson_steps [OF a] obtain h1 w2 h3 where c: "construct ct n C (heap w) = Inr (r, h1)"
      and ap: "applyJsonWith ct (fromJson ct n) r j
                 (w\<lparr>heap := runHook (beforeApplyJson (ct C)) r (applyDefaults ct r h1)\<rparr>) = Inr w2"
      and af: "callAfterApplyJson ct C r (heap w2) = Inr h3"
      and sk: "s \<Longrightarrow> w' = w2\<lparr>heap := h3\<rparr>"
      and ns: "\<not> s \<Longrightarrow> \<exists>t w4. cloneWith ct (fromJson ct n) n r (w2\<lparr>heap := h3\<rparr>) = Inr (t, w4)
           \<and> w' = setPropW r ''_originalState'' (Ref t) w4"
      by metis
    let ?w3 = "w2\<lparr>heap := h3\<rparr>"
    from construct_frame [OF c] have r: "r = length (heap w)" and rl: "r < length h1"
      and g1: "grows (heap w) h1" by auto
    have "growsExcept r h1 (runHook (beforeApplyJson (ct C)) r (applyDefaults ct r h1))"
      using applyDefaults_frame growsExcept_runHook growsExcept_trans by blast
    moreover have "growsExcept r (runHook (beforeApplyJson (ct C)) r (applyDefaults ct r h1)) (heap w2)"
      using applyJsonWith_frame [OF Suc ap] by simp
    moreover have "growsExcept r (heap w2) (heap ?w3)"
      using callAfterApplyJson_frame [OF af] by simp
    ultimately have g3: "growsExcept r h1 (heap ?w3)" using growsExcept_trans by blast
    have g4: "growsExcept r (heap ?w3) (heap w')"
    proof (cases s)
      case True
      with sk have "w' = ?w3" by simp
      then show ?thesis by (simp add: growsExcept_refl)
    next
      case False
      with ns obtain t w4 where cl: "cloneWith ct (fromJson ct n) n r ?w3 = Inr (t, w4)"
        and w': "w' = setPropW r ''_originalState'' (Ref t) w4"
        by blast
      from cloneWith_frame [OF Suc cl] have "growsExcept r (heap ?w3) (heap w4)"
        using grows_growsExcept by blast
      moreover have "growsExcept r (heap w4) (heap w')" using w' growsExcept_setProp by simp
      ultimately show ?thesis using growsExcept_trans by blast
    qed
    from g3 g4 have g5: "growsExcept r h1 (heap w')" using growsExcept_trans by blast
    then have "r < length (heap w')" using rl by (auto simp: growsExcept_def)
    moreover have "grows (heap w) (heap w')"
      using g1 g5 r by (auto simp: grows_def growsExcept_def)
    ultimately show "r = length (heap w) \<and> r < length (heap w') \<and> grows (heap w) (heap w')"
      using r by simp
  qed
qed

lemma propsOf_setProp:
  "propsOf (setProp r k v h) i =
     (if i = r \<and> r < length h then AList.update k v (propsOf h r) else propsOf h i)"
  by (auto simp: propsOf_def setProp_def)

lemma objGet_update: "objGet (AList.update k v ps) k' = (if k' = k then v else objGet ps k')"
  by (simp add: objGet_def update_conv')

lemma getProp_setProp:
  "getProp (setProp r k v h) i k' =
     (if i = r \<and> r < length h \<and> k' = k then v else getProp h i k')"
  by (simp add: getProp_def propsOf_setProp objGet_update)

lemma grows_propsOf: "grows h h' \<Longrightarrow> i < length h \<Longrightarrow> propsOf h' i = propsOf h i"
  by (auto simp: grows_def propsOf_def)

lemma grows_getProp: "grows h h' \<Longrightarrow> i < length h \<Longrightarrow> getProp h' i k = getProp h i k"
  by (simp add: getProp_def grows_propsOf)

lemma grows_clsOf: "grows h h' \<Longrightarrow> i < length h \<Longrightarrow> clsOf h' i = clsOf h i"
  by (auto simp: grows_def clsOf_def)

lemma growsExcept_clsOf: "growsExcept r h h' \<Longrightarrow> i < length h \<Longrightarrow> clsOf h' i = clsOf h i"
  by (cases "i = r") (auto simp: growsExcept_def clsOf_def)

lemma grows_length: "grows h h' \<Longrightarrow> i < length h \<Longrightarrow> i < length h'"
  by (simp add: grows_def)






lemma applyEntry_preserves:
  assumes "allocates fj" "applyEntry ct fj C r (key, v) w = Inr w'" "r < length (heap w)"
    "key \<noteq> k \<or> key \<in> set (readOnly (ct C))"
  shows "getProp (heap w') r k = getProp (heap w) r k"
  using applyEntry_cases [OF assms(1,2)] assms(3,4)
  by (auto simp: getProp_setProp grows_getProp)

lemma applyEntry_length:
  assumes "allocates fj" "applyEntry ct fj C r e w = Inr w'" "r < length (heap w)"
  shows "r < length (heap w')"
  using applyEntry_frame [OF assms(1,2)] assms(3) by (simp add: growsExcept_def)

lemma foldE_applyEntry_preserves:
  assumes "allocates fj"
  shows "foldE (applyEntry ct fj C r) es w = Inr w' \<Longrightarrow> r < length (heap w) \<Longrightarrow>
     (\<forall>e \<in> set es. fst e \<noteq> k \<or> fst e \<in> set (readOnly (ct C))) \<Longrightarrow>
     getProp (heap w') r k = getProp (heap w) r k"
proof (induction es arbitrary: w)
  case Nil
  then show ?case by simp
next
  case (Cons e es)
  obtain key v where e: "e = (key, v)" by (cases e)
  from Cons.prems(1) obtain w1 where s: "applyEntry ct fj C r (key, v) w = Inr w1"
    and r: "foldE (applyEntry ct fj C r) es w1 = Inr w'"
    by (auto simp: e split: sum.splits)
  from Cons.prems(3) e have c: "key \<noteq> k \<or> key \<in> set (readOnly (ct C))" by simp
  have "getProp (heap w1) r k = getProp (heap w) r k"
    by (rule applyEntry_preserves [OF assms s Cons.prems(2) c])
  moreover have "r < length (heap w1)" by (rule applyEntry_length [OF assms s Cons.prems(2)])
  moreover from Cons.prems(3) have "\<forall>e \<in> set es. fst e \<noteq> k \<or> fst e \<in> set (readOnly (ct C))" by simp
  ultimately show ?case using Cons.IH [OF r] by simp
qed




lemma construct_cls:
  assumes "construct ct n C h = Inr (r, h')"
  shows "clsOf h' r = C"
proof (cases n)
  case 0
  with assms show ?thesis by simp
next
  case (Suc m)
  with assms have r: "r = length h"
    and i: "initFields (construct ct m) (length h) (initializers (ct C)) (h @ [\<lparr>cls = C, props = []\<rparr>]) = Inr h'"
    by (auto split: sum.splits)
  have "growsExcept (length h) (h @ [\<lparr>cls = C, props = []\<rparr>]) h'"
    using initFields_frame [OF _ i] construct_frame by blast
  then have "clsOf h' (length h) = clsOf (h @ [\<lparr>cls = C, props = []\<rparr>]) (length h)"
    by (rule growsExcept_clsOf) simp
  with r show ?thesis by (simp add: clsOf_def)
qed

lemma fresh_cls:
  assumes "construct ct n C h = Inr (r, h1)"
  shows "clsOf (runHook hook r (applyDefaults ct r h1)) r = C"
    and "r < length (runHook hook r (applyDefaults ct r h1))"
proof -
  from construct_frame [OF assms] have l: "r < length h1" by simp
  have g: "growsExcept r h1 (runHook hook r (applyDefaults ct r h1))"
    using applyDefaults_frame growsExcept_runHook growsExcept_trans by blast
  from growsExcept_clsOf [OF g l] construct_cls [OF assms]
  show "clsOf (runHook hook r (applyDefaults ct r h1)) r = C" by simp
  from g l show "r < length (runHook hook r (applyDefaults ct r h1))"
    by (simp add: growsExcept_def)
qed

lemma applyJsonWith_readOnly:
  assumes "allocates fj" "applyJsonWith ct fj r json w = Inr w'" "r < length (heap w)"
    "key \<in> set (readOnly (ct (clsOf (heap w) r)))"
  shows "getProp (heap w') r key = getProp (heap w) r key"
proof (cases "truthy json")
  case True
  with assms(2) have f: "foldE (applyEntry ct fj (clsOf (heap w) r) r)
      (objectEntries (heap w) (toCamelCase json)) w = Inr w'"
    by (simp add: applyJsonWith_def split: if_splits)
  have "\<forall>e \<in> set (objectEntries (heap w) (toCamelCase json)).
      fst e \<noteq> key \<or> fst e \<in> set (readOnly (ct (clsOf (heap w) r)))"
  proof
    fix e assume "e \<in> set (objectEntries (heap w) (toCamelCase json))"
    show "fst e \<noteq> key \<or> fst e \<in> set (readOnly (ct (clsOf (heap w) r)))"
      using assms(4) by (cases "fst e = key") simp_all
  qed
  with foldE_applyEntry_preserves [OF assms(1) f assms(3)] show ?thesis by blast
next
  case False
  with assms(2) show ?thesis by (simp add: applyJsonWith_def split: if_splits)
qed

lemma applyJsonWith_length:
  "allocates fj \<Longrightarrow> applyJsonWith ct fj r json w = Inr w' \<Longrightarrow> r < length (heap w) \<Longrightarrow>
     r < length (heap w')"
  using applyJsonWith_frame by (fastforce simp: growsExcept_def)

lemma fromJson_readOnly:
  assumes f: "fromJson ct (Suc n) C json skip w = Inr (r, w')"
    and ro: "key \<in> set (readOnly (ct C))"
    and hook: "afterApplyJson (ct C) = None"
    and key: "key \<noteq> ''_originalState''"
  shows "\<exists>h1. construct ct n C (heap w) = Inr (r, h1) \<and>
           getProp (heap w') r key
             = getProp (runHook (beforeApplyJson (ct C)) r (applyDefaults ct r h1)) r key"
proof -
  from fromJson_steps [OF f] obtain h1 w2 h3 where c: "construct ct n C (heap w) = Inr (r, h1)"
    and ap: "applyJsonWith ct (fromJson ct n) r json
               (w\<lparr>heap := runHook (beforeApplyJson (ct C)) r (applyDefaults ct r h1)\<rparr>) = Inr w2"
    and af: "callAfterApplyJson ct C r (heap w2) = Inr h3"
    and sk: "skip \<Longrightarrow> w' = w2\<lparr>heap := h3\<rparr>"
    and ns: "\<not> skip \<Longrightarrow> \<exists>t w4. cloneWith ct (fromJson ct n) n r (w2\<lparr>heap := h3\<rparr>) = Inr (t, w4)
           \<and> w' = setPropW r ''_originalState'' (Ref t) w4"
    by metis
  let ?h0 = "runHook (beforeApplyJson (ct C)) r (applyDefaults ct r h1)"
  let ?w0 = "w\<lparr>heap := ?h0\<rparr>"
  have cls: "clsOf (heap ?w0) r = C" and len: "r < length (heap ?w0)"
    using fresh_cls [OF c] by simp_all
  have p2: "getProp (heap w2) r key = getProp ?h0 r key"
    using applyJsonWith_readOnly [OF fromJson_allocates ap len] cls ro by simp
  have l2: "r < length (heap w2)"
    by (rule applyJsonWith_length [OF fromJson_allocates ap len])
  have "h3 = heap w2"
    using callAfterApplyJson_cases [OF af] hook by (auto simp: runHook_def)
  then have w3: "w2\<lparr>heap := h3\<rparr> = w2" by simp
  have "getProp (heap w') r key = getProp (heap w2) r key"
  proof (cases skip)
    case True
    with sk w3 show ?thesis by simp
  next
    case False
    with ns w3 obtain t w4 where cl: "cloneWith ct (fromJson ct n) n r w2 = Inr (t, w4)"
      and w': "w' = setPropW r ''_originalState'' (Ref t) w4"
      by auto
    from cloneWith_frame [OF fromJson_allocates cl] have "grows (heap w2) (heap w4)" by simp
    then have "getProp (heap w4) r key = getProp (heap w2) r key"
      using l2 by (rule grows_getProp)
    with w' key show ?thesis by (simp add: getProp_setProp)
  qed
  with p2 c show ?thesis by simp
qed







lemma logOk_setPropW [simp]: "logOk ct (setPropW r k v w) = logOk ct w"
  by (simp add: logOk_def)

lemma logOk_heap_update [simp]: "logOk ct (w\<lparr>heap := h\<rparr>) = logOk ct w"
  by (simp add: logOk_def)











lemma toJsonKey_cases:
  assumes "toJsonKey ct rec h n r opts key plain = Inr plain'"
  shows "(skipped ct h n r opts key \<and> plain' = plain) \<or>
         (\<not> skipped ct h n r opts key \<and> \<not> shadowed h r ''constructor''
            \<and> (\<exists>x. plain' = AList.update (toSnakeCaseKey key) x plain))"
proof (cases "startsWithUnderscore key \<or> key \<in> set (excluded (ct (clsOf h r)))")
  case True
  with assms have "plain' = plain" by (auto simp: toJsonKey_def split: if_splits)
  with True show ?thesis unfolding skipped_def by blast
next
  case False
  with assms obtain g where g: "groupHidden (ct (clsOf h r)) opts key = Inr g"
    by (auto simp: toJsonKey_def split: sum.splits)
  show ?thesis
  proof (cases g)
    case True
    with assms False g have "plain' = plain" by (simp add: toJsonKey_def)
    with True g show ?thesis by (simp add: skipped_def)
  next
    case ng: False
    with assms False g obtain b where u: "unchanged h n r opts key = Inr b"
      by (auto simp: toJsonKey_def split: sum.splits)
    show ?thesis
    proof (cases b)
      case True
      with assms False g ng u have "plain' = plain" by (simp add: toJsonKey_def)
      with True u show ?thesis by (simp add: skipped_def)
    next
      case nb: False
      with False g ng u have ns: "\<not> skipped ct h n r opts key" by (simp add: skipped_def)
      from assms False g ng u nb have c: "\<not> shadowed h r ''constructor''"
        by (auto simp: toJsonKey_def split: if_splits)
      with assms False g ng u nb have "\<exists>x. plain' = AList.update (toSnakeCaseKey key) x plain"
        by (cases "getProp h r key") (auto simp: toJsonKey_def split: sum.splits)
      with ns c show ?thesis by simp
    qed
  qed
qed

lemma foldE_toJsonKey_keys:
  "foldE (toJsonKey ct rec h n r opts) ks plain = Inr plain' \<Longrightarrow>
     fst ` set plain' = fst ` set plain \<union> toSnakeCaseKey ` {k \<in> set ks. \<not> skipped ct h n r opts k}"
proof (induction ks arbitrary: plain)
  case Nil
  then show ?case by simp
next
  case (Cons k ks)
  from Cons.prems obtain p1 where s: "toJsonKey ct rec h n r opts k plain = Inr p1"
    and r: "foldE (toJsonKey ct rec h n r opts) ks p1 = Inr plain'"
    by (auto split: sum.splits)
  have "fst ` set p1 = fst ` set plain \<union> toSnakeCaseKey ` {k' \<in> {k}. \<not> skipped ct h n r opts k'}"
  proof (cases "skipped ct h n r opts k")
    case True
    with toJsonKey_cases [OF s] show ?thesis by auto
  next
    case False
    with toJsonKey_cases [OF s] obtain x where "p1 = AList.update (toSnakeCaseKey k) x plain"
      by blast
    then have "fst ` set p1 = {toSnakeCaseKey k} \<union> fst ` set plain" by (simp add: dom_update)
    with False show ?thesis by auto
  qed
  with Cons.IH [OF r] show ?case by auto
qed

lemma toJson_keys:
  assumes "toJson ct h (Suc n) r opts = Inr (Obj plain)"
  shows "fst ` set plain
           = toSnakeCaseKey ` {k \<in> fst ` set (propsOf h r). \<not> skipped ct h n r opts k}"
proof -
  from assms have "foldE (toJsonKey ct (\<lambda>r'. toJson ct h n r' opts) h n r opts)
      (map fst (propsOf h r)) [] = Inr plain"
    by (auto split: sum.splits if_splits)
  from foldE_toJsonKey_keys [OF this] show ?thesis by simp
qed

lemma diffKey_keys:
  assumes "diffKey h n r other key diffs = Inr diffs'"
  shows "fst ` set diffs' = fst ` set diffs \<union>
     {k \<in> {key}. sameJson h n (getProp h r k) (memberOf h other k) = Inr False}"
proof -
  from assms have nn: "\<not> nullish other"
    by (auto simp: diffKey_def split: sum.splits if_splits)
  with assms obtain b where b: "sameJson h n (getProp h r key) (memberOf h other key) = Inr b"
    by (auto simp: diffKey_def split: sum.splits)
  show ?thesis
  proof (cases b)
    case True
    with assms b nn show ?thesis by (auto simp: diffKey_def)
  next
    case False
    with assms b nn have "diffs' = AList.update key (getProp h r key) diffs"
      by (simp add: diffKey_def)
    then have "fst ` set diffs' = {key} \<union> fst ` set diffs" by (simp add: dom_update)
    with False b show ?thesis by auto
  qed
qed

lemma foldE_diffKey_keys:
  "foldE (diffKey h n r other) ks diffs = Inr diffs' \<Longrightarrow>
     fst ` set diffs' = fst ` set diffs \<union>
       {k \<in> set ks. sameJson h n (getProp h r k) (memberOf h other k) = Inr False}"
proof (induction ks arbitrary: diffs)
  case Nil
  then show ?case by simp
next
  case (Cons k ks)
  from Cons.prems obtain d1 where s: "diffKey h n r other k diffs = Inr d1"
    and r: "foldE (diffKey h n r other) ks d1 = Inr diffs'"
    by (auto split: sum.splits)
  from diffKey_keys [OF s] Cons.IH [OF r] show ?case by auto
qed

lemma foldE_diffKey_returns:
  "foldE (diffKey h n r other) ks diffs = Inr diffs' \<Longrightarrow> k \<in> set ks \<Longrightarrow>
     \<exists>b. sameJson h n (getProp h r k) (memberOf h other k) = Inr b"
proof (induction ks arbitrary: diffs)
  case Nil
  then show ?case by simp
next
  case (Cons x ks)
  from Cons.prems(1) obtain d1 where s: "diffKey h n r other x diffs = Inr d1"
    and r: "foldE (diffKey h n r other) ks d1 = Inr diffs'"
    by (auto split: sum.splits)
  show ?case
  proof (cases "k = x")
    case True
    with s show ?thesis by (auto simp: diffKey_def split: sum.splits if_splits)
  next
    case False
    with Cons.prems(2) Cons.IH [OF r] show ?thesis by simp
  qed
qed

lemma getProp_Ref_key: "getProp h r k = Ref s \<Longrightarrow> k \<in> fst ` set (propsOf h r)"
  by (auto simp: getProp_def objGet_def split: option.splits dest: map_of_SomeD intro: rev_image_eqI)

lemma sameJson_Ref_Undef: "sameJson h n (Ref s) Undef = Inr b \<Longrightarrow> \<not> b"
  by (cases n) (auto simp: sameJson_def jsonMembers_def split: sum.splits if_splits)

lemma diff_fold:
  "diff h n r other = Inr d \<Longrightarrow> foldE (diffKey h n r other) (map fst (propsOf h r)) [] = Inr d"
  by (simp add: diff_def split: if_splits)



subsection \<open>Association lists\<close>

lemma update_fresh: "k \<notin> fst ` set al \<Longrightarrow> AList.update k v al = al @ [(k, v)]"
  by (induction al) auto

lemma foldl_update_distinct:
  "distinct (map fst (acc @ es)) \<Longrightarrow>
     foldl (\<lambda>acc (k, v). AList.update k v acc) acc es = acc @ es"
proof (induction es arbitrary: acc)
  case Nil
  then show ?case by simp
next
  case (Cons e es)
  obtain k v where e: "e = (k, v)" by (cases e)
  from Cons.prems e have "k \<notin> fst ` set acc" by auto
  then have u: "AList.update k v acc = acc @ [(k, v)]" by (rule update_fresh)
  from Cons.prems e have "distinct (map fst ((acc @ [(k, v)]) @ es))" by simp
  from Cons.IH [OF this] u e show ?case by simp
qed

lemma fromEntries_distinct: "distinct (map fst es) \<Longrightarrow> fromEntries es = es"
  using foldl_update_distinct [of "[]" es] by (simp add: fromEntries_def)

lemma foldl_update_keys_distinct:
  "distinct (map fst acc) \<Longrightarrow> distinct (map fst (foldl (\<lambda>acc (k, v). AList.update k v acc) acc es))"
proof (induction es arbitrary: acc)
  case Nil
  then show ?case by simp
next
  case (Cons e es)
  obtain k v where e: "e = (k, v)" by (cases e)
  from Cons.prems have "distinct (map fst (AList.update k v acc))" by (rule distinct_update)
  from Cons.IH [OF this] e show ?case by simp
qed

lemma distinct_fromEntries: "distinct (map fst (fromEntries es))"
  using foldl_update_keys_distinct [of "[]" es] by (simp add: fromEntries_def)

lemma set_update_subset: "set (AList.update k v al) \<subseteq> insert (k, v) (set al)"
  by (induction al) auto

lemma foldl_update_subset:
  "set (foldl (\<lambda>acc (k, v). AList.update k v acc) acc es) \<subseteq> set acc \<union> set es"
proof (induction es arbitrary: acc)
  case Nil
  then show ?case by simp
next
  case (Cons e es)
  obtain k v where e: "e = (k, v)" by (cases e)
  have "set (foldl (\<lambda>acc (k, v). AList.update k v acc) (AList.update k v acc) es)
      \<subseteq> set (AList.update k v acc) \<union> set es" by (rule Cons.IH)
  also have "\<dots> \<subseteq> set acc \<union> set ((k, v) # es)" using set_update_subset [of k v acc] by auto
  finally show ?case using e by simp
qed

lemma set_fromEntries: "set (fromEntries es) \<subseteq> set es"
  using foldl_update_subset [of "[]" es] by (simp add: fromEntries_def)




section \<open>The claims\<close>

text \<open>
  Claim C1 says that the value returned by \<^verbatim>\<open>toJson\<close> holds no live model instance:
  every nested model, also one that is an element of an array-valued field, is replaced
  by its own export. The source exports a field that is itself an instance, but an array
  goes through \<^verbatim>\<open>toSnakeCase\<close>, which returns an instance as it is. For an \<^verbatim>\<open>L\<close>
  built from one post, the export of the field \<^verbatim>\<open>ps\<close> is an array that still holds
  the reference to the post.
\<close>

theorem toJson_array_element_stays_live:
  "(case fromJson demo 4 ''L'' postList False emptyWorld of
      Inl e \<Rightarrow> Inl e
    | Inr (r, w) \<Rightarrow> toJson demo (heap w) 1 r noOptions) = Inr (Obj [(''ps'', Arr [Ref 1])])
   \<and> hasModel (Obj [(''ps'', Arr [Ref 1])])"
  by code_simp

text \<open>
  Claim C2 says that the snapshot captured by \<^verbatim>\<open>fromJson\<close> is an independent deep
  copy. The snapshot is \<^verbatim>\<open>clone()\<close>, which imports the export of the instance, and the
  export of an array of models holds the models themselves, which the import passes
  through (\<^verbatim>\<open>v instanceof ClassType ? v\<close>). For the same \<^verbatim>\<open>L\<close>, the instance (0)
  and its snapshot (3) hold the same post (1) in \<^verbatim>\<open>ps\<close>; assigning the title of
  that post changes what the snapshot prints.
\<close>

theorem snapshot_shares_array_elements:
  "(case fromJson demo 4 ''L'' postList False emptyWorld of
      Inl e \<Rightarrow> False
    | Inr (r, w) \<Rightarrow>
        getProp (heap w) r ''_originalState'' = Ref 3
        \<and> getProp (heap w) r ''ps'' = Arr [Ref 1]
        \<and> getProp (heap w) 3 ''ps'' = Arr [Ref 1]
        \<and> stringify (heap w) 5 [] (Ref 3)
             = Inr (Some (JObj [(''ps'', JArr [JObj [(''t'', JStr ''a''), (''_originalState'', JObj [(''t'', JStr ''a'')])]])]))
        \<and> stringify (setProp 1 ''t'' (Str ''b'') (heap w)) 5 [] (Ref 3)
             = Inr (Some (JObj [(''ps'', JArr [JObj [(''t'', JStr ''b''), (''_originalState'', JObj [(''t'', JStr ''a'')])]])])))"
  by code_simp

text \<open>
  Claim C3 says that a read-only field is left alone by \<^verbatim>\<open>applyJson\<close> after
  construction but is assigned from the input by the import inside \<^verbatim>\<open>fromJson\<close>.
  The second half fails: \<^verbatim>\<open>fromJson\<close> imports through the same \<^verbatim>\<open>applyJson\<close>,
  which skips the key. The input gives \<^verbatim>\<open>id\<close> the value 5; the instance keeps the 7
  of its initializer.
\<close>

theorem fromJson_skips_readOnly_counterexample:
  "(case fromJson demo 2 ''R'' (Obj [(''id'', Num 5)]) True emptyWorld of
      Inl e \<Rightarrow> Undef
    | Inr (r, w) \<Rightarrow> getProp (heap w) r ''id'') = Num 7"
  by code_simp

text \<open>
  Claim C3 as amended: every \<^verbatim>\<open>applyJson\<close> leaves a read-only field of the receiver
  unchanged, and so does the import inside \<^verbatim>\<open>fromJson\<close>: if the class has no
  \<^verbatim>\<open>afterApplyJson\<close> hook, the field holds after \<^verbatim>\<open>fromJson\<close> what the constructor,
  the defaults and the \<^verbatim>\<open>beforeApplyJson\<close> hook gave it, whatever the input.
\<close>

theorem readOnly_skipped_by_every_import:
  "(applyJson ct n r json w = Inr w' \<and> r < length (heap w)
      \<and> key \<in> set (readOnly (ct (clsOf (heap w) r)))
      \<longrightarrow> getProp (heap w') r key = getProp (heap w) r key)
   \<and> (fromJson ct (Suc n) C json skip w = Inr (r, w') \<and> key \<in> set (readOnly (ct C))
        \<and> afterApplyJson (ct C) = None \<and> key \<noteq> ''_originalState''
      \<longrightarrow> (\<exists>h1. construct ct n C (heap w) = Inr (r, h1) \<and>
             getProp (heap w') r key
               = getProp (runHook (beforeApplyJson (ct C)) r (applyDefaults ct r h1)) r key))"
proof (intro conjI impI)
  assume "applyJson ct n r json w = Inr w' \<and> r < length (heap w)
      \<and> key \<in> set (readOnly (ct (clsOf (heap w) r)))"
  then show "getProp (heap w') r key = getProp (heap w) r key"
    using applyJsonWith_readOnly [OF fromJson_allocates] unfolding applyJson_def by blast
next
  assume "fromJson ct (Suc n) C json skip w = Inr (r, w') \<and> key \<in> set (readOnly (ct C))
        \<and> afterApplyJson (ct C) = None \<and> key \<noteq> ''_originalState''"
  then show "\<exists>h1. construct ct n C (heap w) = Inr (r, h1) \<and>
             getProp (heap w') r key
               = getProp (runHook (beforeApplyJson (ct C)) r (applyDefaults ct r h1)) r key"
    using fromJson_readOnly by blast
qed

theorem readOnly_skipped_by_every_import_witness:
  "applyJson demo 1 0 (Obj [(''id'', Num 5)]) roWorld = Inr roWorld
   \<and> 0 < length (heap roWorld)
   \<and> ''id'' \<in> set (readOnly (demo (clsOf (heap roWorld) 0)))
   \<and> getProp (heap roWorld) 0 ''id'' = Num 7
   \<and> fromJson demo (Suc 1) ''R'' (Obj [(''id'', Num 5)]) True emptyWorld
        = Inr (0, \<lparr>heap = [\<lparr>cls = ''R'', props = [(''id'', Num 7), (''n'', Num 0)]\<rparr>], invoked = []\<rparr>)
   \<and> ''id'' \<in> set (readOnly (demo ''R''))
   \<and> afterApplyJson (demo ''R'') = None
   \<and> (\<exists>h1. construct demo 1 ''R'' (heap emptyWorld) = Inr (0, h1) \<and>
         getProp [\<lparr>cls = ''R'', props = [(''id'', Num 7), (''n'', Num 0)]\<rparr>] 0 ''id''
           = getProp (runHook (beforeApplyJson (demo ''R'')) 0 (applyDefaults demo 0 h1)) 0 ''id'')"
proof -
  have a: "applyJson demo 1 0 (Obj [(''id'', Num 5)]) roWorld = Inr roWorld
     \<and> 0 < length (heap roWorld)
     \<and> ''id'' \<in> set (readOnly (demo (clsOf (heap roWorld) 0)))
     \<and> getProp (heap roWorld) 0 ''id'' = Num 7"
    by code_simp
  have b: "fromJson demo (Suc 1) ''R'' (Obj [(''id'', Num 5)]) True emptyWorld
        = Inr (0, \<lparr>heap = [\<lparr>cls = ''R'', props = [(''id'', Num 7), (''n'', Num 0)]\<rparr>], invoked = []\<rparr>)
     \<and> ''id'' \<in> set (readOnly (demo ''R''))
     \<and> afterApplyJson (demo ''R'') = None"
    by code_simp
  have c: "''id'' \<noteq> ''_originalState''" by simp
  from a readOnly_skipped_by_every_import [of demo 1 0 "Obj [(''id'', Num 5)]" roWorld roWorld "''id''"]
  have "getProp (heap roWorld) 0 ''id'' = getProp (heap roWorld) 0 ''id''" by blast
  from b c readOnly_skipped_by_every_import [where ct = demo and n = 1 and r = 0
     and json = "Obj [(''id'', Num 5)]" and w = emptyWorld and key = "''id''" and C = "''R''"
     and skip = True
     and w' = "\<lparr>heap = [\<lparr>cls = ''R'', props = [(''id'', Num 7), (''n'', Num 0)]\<rparr>], invoked = []\<rparr>"]
  have "\<exists>h1. construct demo 1 ''R'' (heap emptyWorld) = Inr (0, h1) \<and>
         getProp [\<lparr>cls = ''R'', props = [(''id'', Num 7), (''n'', Num 0)]\<rparr>] 0 ''id''
           = getProp (runHook (beforeApplyJson (demo ''R'')) 0 (applyDefaults demo 0 h1)) 0 ''id''"
    by simp
  with a b show ?thesis by blast
qed

text \<open>
  Claim C4 says that \<^verbatim>\<open>getChangesSince()\<close> is empty right after construction.
  \<^verbatim>\<open>diff\<close> loops over every own key of the instance, \<^verbatim>\<open>_originalState\<close>
  included, and the snapshot has no \<^verbatim>\<open>_originalState\<close> of its own, so the key is
  reported as a change. For a post built from a title:
\<close>

theorem getChangesSince_after_construction:
  "(case fromJson demo 3 ''P'' (Obj [(''t'', Str ''a'')]) False emptyWorld of
      Inl e \<Rightarrow> Inl e
    | Inr (r, w) \<Rightarrow> getChangesSince (heap w) 3 r) = Inr [(''_originalState'', Ref 1)]"
  by code_simp







text \<open>
  Claim C7. For every key \<open>k\<close>, converting to camel case, back to snake case and to
  camel case again gives the same key as converting to camel case once. It holds for
  every string, not only for keys that follow the underscore convention.
\<close>

theorem key_roundtrip_stable:
  "toCamelCaseKey (toSnakeCaseKey (toCamelCaseKey k)) = toCamelCaseKey k"
  by (rule camel_snake [OF camelShaped_toCamelCaseKey])

text \<open>
  Claim C9. \<^verbatim>\<open>diff\<close> applies no filter to the keys: a key is in the result exactly
  when it is an own key of the receiver whose value prints differently from the same
  member of the other value. So when the receiver holds a snapshot and the other value
  has no \<^verbatim>\<open>_originalState\<close>, the result has the key \<^verbatim>\<open>_originalState\<close>;
  \<^verbatim>\<open>getChangesSince\<close> is this \<^verbatim>\<open>diff\<close> against the snapshot. \<^verbatim>\<open>toJson\<close>, unlike
  \<^verbatim>\<open>diff\<close>, only exports keys that do not start with an underscore.
\<close>

theorem diff_has_no_underscore_filter:
  assumes "diff h n r other = Inr d"
  shows "(k \<in> fst ` set d \<longleftrightarrow>
            k \<in> fst ` set (propsOf h r)
            \<and> sameJson h n (getProp h r k) (memberOf h other k) = Inr False)
       \<and> (getProp h r ''_originalState'' = Ref s \<and> memberOf h other ''_originalState'' = Undef
            \<longrightarrow> ''_originalState'' \<in> fst ` set d)
       \<and> (truthy (getProp h r ''_originalState'')
            \<longrightarrow> getChangesSince h n r = diff h n r (getProp h r ''_originalState''))
       \<and> (toJson ct h (Suc m) r opts = Inr (Obj plain)
            \<longrightarrow> fst ` set plain
                  \<subseteq> toSnakeCaseKey ` {k \<in> fst ` set (propsOf h r). \<not> startsWithUnderscore k})"
proof -
  note f = diff_fold [OF assms]
  have c: "k \<in> fst ` set d \<longleftrightarrow>
            k \<in> fst ` set (propsOf h r)
            \<and> sameJson h n (getProp h r k) (memberOf h other k) = Inr False" for k
    using foldE_diffKey_keys [OF f] by auto
  have "''_originalState'' \<in> fst ` set d"
    if a: "getProp h r ''_originalState'' = Ref s" "memberOf h other ''_originalState'' = Undef"
  proof -
    from a(1) have k: "''_originalState'' \<in> fst ` set (propsOf h r)" by (rule getProp_Ref_key)
    then obtain b where "sameJson h n (getProp h r ''_originalState'')
        (memberOf h other ''_originalState'') = Inr b"
      using foldE_diffKey_returns [OF f] by auto
    with a sameJson_Ref_Undef have "sameJson h n (getProp h r ''_originalState'')
        (memberOf h other ''_originalState'') = Inr False" by auto
    with k c show ?thesis by blast
  qed
  moreover have "truthy (getProp h r ''_originalState'') \<Longrightarrow>
      getChangesSince h n r = diff h n r (getProp h r ''_originalState'')"
    by (simp add: getChangesSince_def)
  moreover have "fst ` set plain
      \<subseteq> toSnakeCaseKey ` {k \<in> fst ` set (propsOf h r). \<not> startsWithUnderscore k}"
    if "toJson ct h (Suc m) r opts = Inr (Obj plain)"
    using toJson_keys [OF that] by (auto simp: skipped_def)
  ultimately show ?thesis using c by blast
qed

theorem diff_has_no_underscore_filter_witness:
  "diff sHeap 3 0 (Ref 1) = Inr [(''_originalState'', Ref 1)]
   \<and> getProp sHeap 0 ''_originalState'' = Ref 1
   \<and> memberOf sHeap (Ref 1) ''_originalState'' = Undef
   \<and> truthy (getProp sHeap 0 ''_originalState'')
   \<and> ''_originalState'' \<in> fst ` set [(''_originalState'', Ref 1)]
   \<and> getChangesSince sHeap 3 0 = Inr [(''_originalState'', Ref 1)]
   \<and> toJson demo sHeap (Suc 0) 0 noOptions = Inr (Obj [(''t'', Str ''a'')])
   \<and> fst ` set [(''t'', Str ''a'')]
        \<subseteq> toSnakeCaseKey ` {k \<in> fst ` set (propsOf sHeap 0). \<not> startsWithUnderscore k}"
proof -
  have d: "diff sHeap 3 0 (Ref 1) = Inr [(''_originalState'', Ref 1)]" by code_simp
  have a: "getProp sHeap 0 ''_originalState'' = Ref 1
     \<and> memberOf sHeap (Ref 1) ''_originalState'' = Undef
     \<and> truthy (getProp sHeap 0 ''_originalState'')"
    by code_simp
  have t: "toJson demo sHeap (Suc 0) 0 noOptions = Inr (Obj [(''t'', Str ''a'')])" by code_simp
  from diff_has_no_underscore_filter [OF d, where s = 1 and ct = demo and m = 0
      and opts = noOptions and plain = "[(''t'', Str ''a'')]"] a t
  have "''_originalState'' \<in> fst ` set [(''_originalState'', Ref 1)]
     \<and> getChangesSince sHeap 3 0 = diff sHeap 3 0 (getProp sHeap 0 ''_originalState'')
     \<and> fst ` set [(''t'', Str ''a'')]
        \<subseteq> toSnakeCaseKey ` {k \<in> fst ` set (propsOf sHeap 0). \<not> startsWithUnderscore k}"
    by blast
  with d a t show ?thesis by simp
qed




end
